theory Spec2Isabelle
  imports Main "HOL-Library.AList"
begin

section \<open>JavaScript values used by the engine\<close>

text \<open>
  Strings are \<^typ>\<open>string\<close>: one \<^typ>\<open>char\<close> stands for one UTF-16 code unit
  below 256, which covers every character the notation uses. A JavaScript number is an
  \<^typ>\<open>int option\<close>: \<open>None\<close> is \<open>NaN\<close>. The numbers of the engine are small integers
  (character codes, digits, their sums and differences), exact in a double; only the
  counters of a loop that does not exit grow beyond that, and such a loop does not exit
  in a double either.
\<close>

type_synonym number = "int option"

definition isDigit :: "char \<Rightarrow> bool" where
  "isDigit c = (48 \<le> (of_char c :: nat) \<and> (of_char c :: nat) \<le> 57)"

definition digitVal :: "char \<Rightarrow> int" where
  "digitVal c = of_char c - 48"

text \<open>The characters matched by \<open>\s\<close>, removed by \<open>trim\<close> and read as blank by \<open>Number\<close>.\<close>

definition isWhiteSpace :: "char \<Rightarrow> bool" where
  "isWhiteSpace c = ((of_char c :: nat) \<in> {9, 10, 11, 12, 13, 32, 160})"

text \<open>\<open>Number(char)\<close> for a one-character string: a digit, a blank (0), or \<open>NaN\<close>.\<close>

definition NumberOfChar :: "char \<Rightarrow> number" where
  "NumberOfChar c =
     (if isDigit c then Some (digitVal c) else if isWhiteSpace c then Some 0 else None)"

text \<open>\<open>parseInt(char)\<close> and \<open>parseInt(char, 10)\<close> for a one-character string.\<close>

definition parseIntChar :: "char \<Rightarrow> number" where
  "parseIntChar c = (if isDigit c then Some (digitVal c) else None)"

definition numAdd :: "number \<Rightarrow> number \<Rightarrow> number" where
  "numAdd a b = (case a of None \<Rightarrow> None | Some x \<Rightarrow> (case b of None \<Rightarrow> None | Some y \<Rightarrow> Some (x + y)))"

definition numSub :: "number \<Rightarrow> number \<Rightarrow> number" where
  "numSub a b = (case a of None \<Rightarrow> None | Some x \<Rightarrow> (case b of None \<Rightarrow> None | Some y \<Rightarrow> Some (x - y)))"

definition numAbs :: "number \<Rightarrow> number" where
  "numAbs a = (case a of None \<Rightarrow> None | Some x \<Rightarrow> Some \<bar>x\<bar>)"

text \<open>\<open>a === b\<close> on numbers: \<open>NaN\<close> equals nothing, itself included.\<close>

definition strictEq :: "number \<Rightarrow> number \<Rightarrow> bool" where
  "strictEq a b = (case a of None \<Rightarrow> False | Some x \<Rightarrow> (case b of None \<Rightarrow> False | Some y \<Rightarrow> x = y))"

definition numGe :: "number \<Rightarrow> int \<Rightarrow> bool" where
  "numGe a n = (case a of None \<Rightarrow> False | Some x \<Rightarrow> n \<le> x)"

definition numGt :: "number \<Rightarrow> int \<Rightarrow> bool" where
  "numGt a n = (case a of None \<Rightarrow> False | Some x \<Rightarrow> n < x)"

definition numLe :: "number \<Rightarrow> int \<Rightarrow> bool" where
  "numLe a n = (case a of None \<Rightarrow> False | Some x \<Rightarrow> x \<le> n)"

text \<open>\<open>Math.sign(x) || 0\<close>: the sign of an integer, and 0 for \<open>NaN\<close>.\<close>

definition signOrZero :: "number \<Rightarrow> int" where
  "signOrZero a = (case a of None \<Rightarrow> 0 | Some x \<Rightarrow> sgn x)"

text \<open>The decimal digits of a natural number, and \<open>String(n)\<close> for a number.\<close>

function decimalDigits :: "nat \<Rightarrow> string" where
  "decimalDigits n =
     (if n < 10 then [char_of (48 + n)]
      else decimalDigits (n div 10) @ [char_of (48 + n mod 10)])"
  by pat_completeness auto
termination
  by (relation "measure (\<lambda>n. n)") auto

definition numToString :: "number \<Rightarrow> string" where
  "numToString a =
     (case a of None \<Rightarrow> ''NaN''
      | Some x \<Rightarrow> (if x < 0 then CHR ''-'' # decimalDigits (nat (- x)) else decimalDigits (nat x)))"

text \<open>
  \<open>String.fromCharCode(n)\<close> yields the code unit \<open>n mod 65536\<close> (0 for \<open>NaN\<close>). A code
  unit of 256 or more is in no string of this model, so a name that starts with one is
  \<open>None\<close> and is the key of no entry.
\<close>

definition fromCharCode :: "number \<Rightarrow> nat" where
  "fromCharCode a = (case a of None \<Rightarrow> 0 | Some x \<Rightarrow> nat (x mod 65536))"

definition squareName :: "number \<Rightarrow> number \<Rightarrow> string option" where
  "squareName fileNum rankNum =
     (let u = fromCharCode (numAdd (Some 97) fileNum)
      in if u < 256 then Some (char_of u # numToString (numSub (Some 8) rankNum)) else None)"

text \<open>\<open>s.charCodeAt(0)\<close>, and \<open>parseInt(s[1] ?? '1', 10)\<close>.\<close>

definition charCodeAt0 :: "string \<Rightarrow> number" where
  "charCodeAt0 s = (case s of [] \<Rightarrow> None | c # _ \<Rightarrow> Some (of_char c))"

definition parseIntAt1 :: "string \<Rightarrow> number" where
  "parseIntAt1 s = (case s of _ # c # _ \<Rightarrow> parseIntChar c | _ \<Rightarrow> Some 1)"

text \<open>\<open>s.split(sep)\<close> for a one-character separator: empty pieces are kept.\<close>

fun splitOn :: "char \<Rightarrow> string \<Rightarrow> string list" where
  "splitOn sep [] = [[]]"
| "splitOn sep (c # cs) =
     (if c = sep then [] # splitOn sep cs
      else (case splitOn sep cs of [] \<Rightarrow> [[c]] | t # ts \<Rightarrow> (c # t) # ts))"

text \<open>\<open>s.includes(d)\<close>: \<open>d\<close> occurs in \<open>s\<close> as a contiguous substring.\<close>

fun includesStr :: "string \<Rightarrow> string \<Rightarrow> bool" where
  "includesStr [] d = (d = [])"
| "includesStr (c # cs) d = (take (length d) (c # cs) = d \<or> includesStr cs d)"

section \<open>Pieces and the two alphabets (types/notation.ts, NotationConverter)\<close>

datatype StandardPiece =
    WhiteKing | WhiteQueen | WhiteRook | WhiteBishop | WhiteKnight | WhitePawn
  | BlackKing | BlackQueen | BlackRook | BlackBishop | BlackKnight | BlackPawn

text \<open>The letter each variant has in the enum \<open>StandardPiece\<close> and in the enum \<open>FrenchPiece\<close>.\<close>

fun standardLetter :: "StandardPiece \<Rightarrow> char" where
  "standardLetter WhiteKing = CHR ''K''"
| "standardLetter WhiteQueen = CHR ''Q''"
| "standardLetter WhiteRook = CHR ''R''"
| "standardLetter WhiteBishop = CHR ''B''"
| "standardLetter WhiteKnight = CHR ''N''"
| "standardLetter WhitePawn = CHR ''P''"
| "standardLetter BlackKing = CHR ''k''"
| "standardLetter BlackQueen = CHR ''q''"
| "standardLetter BlackRook = CHR ''r''"
| "standardLetter BlackBishop = CHR ''b''"
| "standardLetter BlackKnight = CHR ''n''"
| "standardLetter BlackPawn = CHR ''p''"

fun frenchLetter :: "StandardPiece \<Rightarrow> char" where
  "frenchLetter WhiteKing = CHR ''R''"
| "frenchLetter WhiteQueen = CHR ''D''"
| "frenchLetter WhiteRook = CHR ''T''"
| "frenchLetter WhiteBishop = CHR ''F''"
| "frenchLetter WhiteKnight = CHR ''C''"
| "frenchLetter WhitePawn = CHR ''P''"
| "frenchLetter BlackKing = CHR ''r''"
| "frenchLetter BlackQueen = CHR ''d''"
| "frenchLetter BlackRook = CHR ''t''"
| "frenchLetter BlackBishop = CHR ''f''"
| "frenchLetter BlackKnight = CHR ''c''"
| "frenchLetter BlackPawn = CHR ''p''"

definition allPieces :: "StandardPiece list" where
  "allPieces =
     [WhiteKing, WhiteQueen, WhiteRook, WhiteBishop, WhiteKnight, WhitePawn,
      BlackKing, BlackQueen, BlackRook, BlackBishop, BlackKnight, BlackPawn]"

text \<open>\<open>isFrenchPiece\<close>: the character is one of the values of the enum \<open>FrenchPiece\<close>.\<close>

definition isFrenchPiece :: "char \<Rightarrow> bool" where
  "isFrenchPiece c = (c \<in> set (map frenchLetter allPieces))"

definition isStandardPiece :: "char \<Rightarrow> bool" where
  "isStandardPiece c = (c \<in> set (map standardLetter allPieces))"

text \<open>\<open>convertPieceToStandard\<close>: the conversion table, any other character unchanged.\<close>

definition convertPieceToStandard :: "char \<Rightarrow> char" where
  "convertPieceToStandard c =
     (if c = CHR ''R'' then CHR ''K'' else if c = CHR ''r'' then CHR ''k''
      else if c = CHR ''D'' then CHR ''Q'' else if c = CHR ''d'' then CHR ''q''
      else if c = CHR ''T'' then CHR ''R'' else if c = CHR ''t'' then CHR ''r''
      else if c = CHR ''F'' then CHR ''B'' else if c = CHR ''f'' then CHR ''b''
      else if c = CHR ''C'' then CHR ''N'' else if c = CHR ''c'' then CHR ''n''
      else c)"

text \<open>
  \<open>convertPieceToFrench\<close> looks a standard piece up in \<open>standardToFrenchMap\<close>; on letters
  it sends the standard letter of a piece to its French letter.
\<close>

definition convertPieceToFrench :: "StandardPiece \<Rightarrow> char" where
  "convertPieceToFrench p = frenchLetter p"

definition toFrenchChar :: "char \<Rightarrow> char" where
  "toFrenchChar c =
     (case filter (\<lambda>p. standardLetter p = c) allPieces of
        [] \<Rightarrow> c
      | p # _ \<Rightarrow> convertPieceToFrench p)"

text \<open>\<open>isFrenchNotation\<close>: the move starts with one of \<open>R D T F C\<close> (regex \<open>/^[RDTFC]/\<close>).\<close>

definition isFrenchNotation :: "string \<Rightarrow> bool" where
  "isFrenchNotation move = (case move of [] \<Rightarrow> False | c # _ \<Rightarrow> c \<in> set ''RDTFC'')"

text \<open>
  \<open>convertMoveToStandard\<close>: castling unchanged; otherwise a first character matching
  \<open>/^[RDTFC]/i\<close> (either case) is replaced by \<open>convertPieceToStandard\<close> of it.
\<close>

definition convertMoveToStandard :: "string \<Rightarrow> string" where
  "convertMoveToStandard move =
     (if move = ''O-O'' \<or> move = ''O-O-O'' then move
      else (case move of [] \<Rightarrow> []
            | c # cs \<Rightarrow> (if c \<in> set ''RDTFCrdtfc'' then convertPieceToStandard c # cs else c # cs)))"

section \<open>Positions (types/chess.ts)\<close>

text \<open>
  A \<open>PositionMap\<close> is a JavaScript object from square names to pieces. It is an
  association list in insertion order: \<open>position[k]\<close> is \<^const>\<open>map_of\<close>,
  \<open>position[k] = v\<close> is \<^const>\<open>AList.update\<close> (in place for an existing key, appended
  otherwise), \<open>delete position[k]\<close> is \<^const>\<open>AList.delete\<close>, and a spread copy
  \<open>{ ...position }\<close> is the list itself. The names that the parser, the resolver and
  the sequencer look up are keys of the object, targets of two characters, or one
  character followed by a decimal numeral, so no property inherited from
  \<open>Object.prototype\<close> is ever read.
\<close>

type_synonym PositionMap = "(string \<times> StandardPiece) list"

text \<open>
  The order in which \<open>for (k in position)\<close> visits the keys: array indices (canonical
  decimal numerals below \<open>2^32 - 1\<close>) first, ascending, then the other keys in insertion
  order. A square name such as \<open>e4\<close> is never an array index.
\<close>

definition decimalValue :: "string \<Rightarrow> nat" where
  "decimalValue s = foldl (\<lambda>n c. 10 * n + nat (digitVal c)) 0 s"

definition isArrayIndex :: "string \<Rightarrow> bool" where
  "isArrayIndex k =
     (k \<noteq> [] \<and> list_all isDigit k \<and> (k = ''0'' \<or> hd k \<noteq> CHR ''0'') \<and> decimalValue k < 4294967295)"

definition forInKeys :: "PositionMap \<Rightarrow> string list" where
  "forInKeys position =
     (let ks = map fst position
      in sort_key decimalValue (filter isArrayIndex ks) @ filter (\<lambda>k. \<not> isArrayIndex k) ks)"

section \<open>Strings: blanks, trimming, regular-expression helpers\<close>

text \<open>\<open>s.trim()\<close>.\<close>

definition trim :: "string \<Rightarrow> string" where
  "trim s = rev (dropWhile isWhiteSpace (rev (dropWhile isWhiteSpace s)))"

text \<open>\<open>s.replace(/\s+/g, ' ')\<close>: every run of blanks becomes one space.\<close>

function collapseWS :: "string \<Rightarrow> string" where
  "collapseWS [] = []"
| "collapseWS (c # cs) =
     (if isWhiteSpace c then CHR '' '' # collapseWS (dropWhile isWhiteSpace cs)
      else c # collapseWS cs)"
  by pat_completeness auto
termination
  by (relation "measure length") (auto simp: length_dropWhile_le le_imp_less_Suc)

text \<open>
  \<open>s.split(/\s+/)\<close>: the pieces between the runs of blanks; a leading or trailing run
  leaves an empty piece, and the empty string gives one empty piece.
\<close>

function splitWS :: "string \<Rightarrow> string list" where
  "splitWS [] = [[]]"
| "splitWS (c # cs) =
     (if isWhiteSpace c then [] # splitWS (dropWhile isWhiteSpace cs)
      else (case splitWS cs of [] \<Rightarrow> [[c]] | t # ts \<Rightarrow> (c # t) # ts))"
  by pat_completeness auto
termination
  by (relation "measure length") (auto simp: length_dropWhile_le le_imp_less_Suc)

text \<open>The string starts with a match of \<open>/\d+\./\<close>: a run of digits, then a dot.\<close>

definition startsWithMoveNumber :: "string \<Rightarrow> bool" where
  "startsWithMoveNumber s =
     (case s of [] \<Rightarrow> False
      | c # _ \<Rightarrow> isDigit c \<and> (case dropWhile isDigit s of [] \<Rightarrow> False | d # _ \<Rightarrow> d = CHR ''.''))"

text \<open>\<open>s.search(/\d+\./)\<close>: the index of the first match, \<open>None\<close> for \<open>-1\<close>.\<close>

fun searchMoveNumber :: "string \<Rightarrow> nat option" where
  "searchMoveNumber [] = None"
| "searchMoveNumber (c # cs) =
     (if startsWithMoveNumber (c # cs) then Some 0 else map_option Suc (searchMoveNumber cs))"

text \<open>\<open>move.replace(/^\d+\./, '')\<close>: a leading move number is removed.\<close>

definition stripMoveNumber :: "string \<Rightarrow> string" where
  "stripMoveNumber move = (if startsWithMoveNumber move then tl (dropWhile isDigit move) else move)"

text \<open>\<open>s.replace(/\d+\./g, '')\<close>: every match is removed, scanning from the left.\<close>

function stripAllMoveNumbers :: "string \<Rightarrow> string" where
  "stripAllMoveNumbers [] = []"
| "stripAllMoveNumbers (c # cs) =
     (if startsWithMoveNumber (c # cs) then stripAllMoveNumbers (tl (dropWhile isDigit (c # cs)))
      else c # stripAllMoveNumbers cs)"
  by pat_completeness auto
termination
proof (relation "measure length")
  fix c :: char and cs :: string
  assume "startsWithMoveNumber (c # cs)"
  then have "isDigit c"
    by (simp add: startsWithMoveNumber_def)
  then have "tl (dropWhile isDigit (c # cs)) = tl (dropWhile isDigit cs)"
    by simp
  moreover have "length (tl (dropWhile isDigit cs)) \<le> length cs"
    using length_dropWhile_le [of isDigit cs] by simp
  ultimately show "(tl (dropWhile isDigit (c # cs)), c # cs) \<in> measure length"
    by simp
qed auto

text \<open>
  \<open>move.replace(/^[RDTFC]/i, piece => convertPieceToStandard(piece))\<close>: the flag \<open>i\<close>
  makes the class match either case.
\<close>

definition replaceLeadingFrench :: "string \<Rightarrow> string" where
  "replaceLeadingFrench move =
     (case move of [] \<Rightarrow> []
      | c # cs \<Rightarrow> (if c \<in> set ''RDTFCrdtfc'' then convertPieceToStandard c # cs else c # cs))"

text \<open>
  \<open>parseInt(s)\<close>: leading blanks, a sign, a radix prefix \<open>0x\<close>, then the longest run of
  digits; \<open>NaN\<close> when the run is empty. (A value beyond \<open>2^53\<close> is rounded by JavaScript
  and not here.)
\<close>

definition radixDigit :: "int \<Rightarrow> char \<Rightarrow> int option" where
  "radixDigit radix c =
     (let n = (of_char c :: int);
          v = (if 48 \<le> n \<and> n \<le> 57 then n - 48
               else if 97 \<le> n \<and> n \<le> 122 then n - 87
               else if 65 \<le> n \<and> n \<le> 90 then n - 55
               else radix)
      in if v < radix then Some v else None)"

fun radixValue :: "int \<Rightarrow> int \<Rightarrow> string \<Rightarrow> int" where
  "radixValue radix acc [] = acc"
| "radixValue radix acc (c # cs) =
     (case radixDigit radix c of None \<Rightarrow> acc | Some v \<Rightarrow> radixValue radix (radix * acc + v) cs)"

definition parseInt :: "string \<Rightarrow> number" where
  "parseInt s =
     (let s1 = dropWhile isWhiteSpace s;
          negative = (take 1 s1 = ''-'');
          s2 = (if take 1 s1 = ''-'' \<or> take 1 s1 = ''+'' then drop 1 s1 else s1);
          hex = (take 2 s2 = ''0x'' \<or> take 2 s2 = ''0X'');
          radix = (if hex then 16 else 10);
          s3 = (if hex then drop 2 s2 else s2)
      in (case s3 of [] \<Rightarrow> None
          | c # _ \<Rightarrow>
              (if radixDigit radix c = None then None
               else Some ((if negative then - 1 else 1) * radixValue radix 0 s3))))"

section \<open>The record parser (utils/FENParser.ts)\<close>

datatype parse_error =
    MustHave8Ranks
  | TooManyPieces int
  | InvalidFrenchPiece char
  | InvalidPieceCharacter char
  | RankTooLong int
  | RankIncorrectLength int
  | MissingComponents

text \<open>\<open>coordsToAlgebraic(row, col)\<close>: files from \<open>a\<close>, ranks counted down from 8.\<close>

definition coordsToAlgebraic :: "number \<Rightarrow> number \<Rightarrow> string" where
  "coordsToAlgebraic row col =
     char_of (fromCharCode (numAdd (Some 97) col)) # numToString (numSub (Some 8) row)"

text \<open>
  \<open>isFrenchFENNotation\<close>: the text before the first \<open>/\<close> is tested against
  \<open>/[DTFCdtfc]/\<close>.
\<close>

definition isFrenchFENNotation :: "string \<Rightarrow> bool" where
  "isFrenchFENNotation fen =
     (case splitOn (CHR ''/'') fen of
        [] \<Rightarrow> False
      | boardPart # _ \<Rightarrow> list_ex (\<lambda>c. c \<in> set ''DTFCdtfc'') boardPart)"

text \<open>\<open>char.toUpperCase()\<close>, which the parser applies to French piece letters only.\<close>

definition toUpperCase :: "char \<Rightarrow> char" where
  "toUpperCase c =
     (if 97 \<le> (of_char c :: nat) \<and> (of_char c :: nat) \<le> 122 then char_of ((of_char c :: nat) - 32) else c)"

text \<open>The two \<open>switch\<close> statements of \<open>parsePosition\<close>: the piece a letter stands for.\<close>

definition frenchSwitch :: "char \<Rightarrow> parse_error + StandardPiece" where
  "frenchSwitch c =
     (let u = toUpperCase c
      in if u = CHR ''R'' then Inr (if c = CHR ''R'' then WhiteKing else BlackKing)
         else if u = CHR ''D'' then Inr (if c = CHR ''D'' then WhiteQueen else BlackQueen)
         else if u = CHR ''T'' then Inr (if c = CHR ''T'' then WhiteRook else BlackRook)
         else if u = CHR ''F'' then Inr (if c = CHR ''F'' then WhiteBishop else BlackBishop)
         else if u = CHR ''C'' then Inr (if c = CHR ''C'' then WhiteKnight else BlackKnight)
         else if u = CHR ''P'' then Inr (if c = CHR ''P'' then WhitePawn else BlackPawn)
         else Inl (InvalidFrenchPiece c))"

definition standardSwitch :: "char \<Rightarrow> parse_error + StandardPiece" where
  "standardSwitch c =
     (if c = CHR ''K'' then Inr WhiteKing
      else if c = CHR ''Q'' then Inr WhiteQueen
      else if c = CHR ''R'' then Inr WhiteRook
      else if c = CHR ''B'' then Inr WhiteBishop
      else if c = CHR ''N'' then Inr WhiteKnight
      else if c = CHR ''P'' then Inr WhitePawn
      else if c = CHR ''k'' then Inr BlackKing
      else if c = CHR ''q'' then Inr BlackQueen
      else if c = CHR ''r'' then Inr BlackRook
      else if c = CHR ''b'' then Inr BlackBishop
      else if c = CHR ''n'' then Inr BlackKnight
      else if c = CHR ''p'' then Inr BlackPawn
      else Inl (InvalidPieceCharacter c))"

definition pieceOfChar :: "bool \<Rightarrow> char \<Rightarrow> parse_error + StandardPiece" where
  "pieceOfChar isFrench c =
     (if isFrench \<and> isFrenchPiece c then frenchSwitch c else standardSwitch c)"

text \<open>
  The loop over the characters of one rank: the state is \<open>fileIndex\<close> and the position
  built so far; a \<open>throw\<close> is \<open>Inl\<close>.
\<close>

fun parseRankChars ::
  "bool \<Rightarrow> int \<Rightarrow> string \<Rightarrow> number \<Rightarrow> PositionMap \<Rightarrow> parse_error + (number \<times> PositionMap)" where
  "parseRankChars isFrench rankIndex [] fileIndex position = Inr (fileIndex, position)"
| "parseRankChars isFrench rankIndex (c # cs) fileIndex position =
     (if NumberOfChar c = None then
        (if numGe fileIndex 8 then Inl (TooManyPieces (8 - rankIndex))
         else (case pieceOfChar isFrench c of
                 Inl e \<Rightarrow> Inl e
               | Inr p \<Rightarrow>
                   parseRankChars isFrench rankIndex cs (numAdd fileIndex (Some 1))
                     (AList.update (coordsToAlgebraic (Some rankIndex) fileIndex) p position)))
      else
        (let emptySquares = parseIntChar c
         in if numGt (numAdd fileIndex emptySquares) 8 then Inl (RankTooLong (8 - rankIndex))
            else parseRankChars isFrench rankIndex cs (numAdd fileIndex emptySquares) position))"

text \<open>The body of \<open>ranks.forEach\<close> for one rank, and the loop over the ranks.\<close>

definition parseRank :: "bool \<Rightarrow> int \<Rightarrow> string \<Rightarrow> PositionMap \<Rightarrow> parse_error + PositionMap" where
  "parseRank isFrench rankIndex rank position =
     (case parseRankChars isFrench rankIndex rank (Some 0) position of
        Inl e \<Rightarrow> Inl e
      | Inr (fileIndex, position') \<Rightarrow>
          (if strictEq fileIndex (Some 8) then Inr position'
           else Inl (RankIncorrectLength (8 - rankIndex))))"

fun parseRanks :: "bool \<Rightarrow> int \<Rightarrow> string list \<Rightarrow> PositionMap \<Rightarrow> parse_error + PositionMap" where
  "parseRanks isFrench rankIndex [] position = Inr position"
| "parseRanks isFrench rankIndex (rank # ranks) position =
     (case parseRank isFrench rankIndex rank position of
        Inl e \<Rightarrow> Inl e
      | Inr position' \<Rightarrow> parseRanks isFrench (rankIndex + 1) ranks position')"

definition parsePosition :: "string \<Rightarrow> parse_error + PositionMap" where
  "parsePosition boardPart =
     (let ranks = splitOn (CHR ''/'') boardPart
      in if length ranks \<noteq> 8 then Inl MustHave8Ranks
         else parseRanks (isFrenchFENNotation boardPart) 0 ranks [])"

text \<open>\<open>parseMoves\<close> of FENParser.ts.\<close>

definition parseMoves :: "string \<Rightarrow> string list" where
  "parseMoves movePart =
     (if movePart = [] then []
      else
        (let moves = filter (\<lambda>move. 0 < length move) (splitWS (trim (collapseWS movePart)))
         in map (\<lambda>move. if move = ''O-O'' \<or> move = ''O-O-O'' then move
                         else replaceLeadingFrench move)
              (filter (\<lambda>move. 0 < length move)
                 (map (\<lambda>move. trim (stripMoveNumber move)) moves))))"

record CastlingRights =
  whiteKingSide :: bool
  whiteQueenSide :: bool
  blackKingSide :: bool
  blackQueenSide :: bool

definition parseCastlingRights :: "string \<Rightarrow> CastlingRights" where
  "parseCastlingRights castlingString =
     \<lparr>whiteKingSide = includesStr castlingString ''K'',
      whiteQueenSide = includesStr castlingString ''Q'',
      blackKingSide = includesStr castlingString ''k'',
      blackQueenSide = includesStr castlingString ''q''\<rparr>"

text \<open>
  The result of \<open>parseFEN\<close>. The fields \<open>structure\<close>, \<open>position\<close>, \<open>moves\<close> and
  \<open>error\<close> of the source are \<open>fenStructure\<close>, \<open>fenPosition\<close>, \<open>fenMoves\<close> and
  \<open>parseError\<close> here; the error is the thrown message.
\<close>

record FENStructure =
  fenPosition :: PositionMap
  activeColor :: string
  castling :: CastlingRights
  enPassant :: string
  halfMoveClock :: number
  fullMoveNumber :: number
  fenMoves :: "string list"

record ParsedFEN =
  fenStructure :: FENStructure
  isValid :: bool
  parseError :: "parse_error option"

text \<open>The value returned by the \<open>catch\<close> block.\<close>

definition invalidFEN :: "parse_error \<Rightarrow> ParsedFEN" where
  "invalidFEN e =
     \<lparr>fenStructure =
        \<lparr>fenPosition = [], activeColor = ''w'',
         castling = \<lparr>whiteKingSide = False, whiteQueenSide = False,
                     blackKingSide = False, blackQueenSide = False\<rparr>,
         enPassant = ''-'', halfMoveClock = Some 0, fullMoveNumber = Some 1, fenMoves = []\<rparr>,
      isValid = False, parseError = Some e\<rparr>"

text \<open>\<open>fenPart\<close>, \<open>movePart\<close> and \<open>fenParts\<close> as \<open>parseFEN\<close> computes them.\<close>

definition fenPartOf :: "string \<Rightarrow> string" where
  "fenPartOf fenString =
     (case searchMoveNumber fenString of
        None \<Rightarrow> trim fenString
      | Some moveStartIndex \<Rightarrow> trim (take moveStartIndex fenString))"

definition movePartOf :: "string \<Rightarrow> string" where
  "movePartOf fenString =
     (case searchMoveNumber fenString of
        None \<Rightarrow> []
      | Some moveStartIndex \<Rightarrow> trim (drop moveStartIndex fenString))"

definition fenPartsOf :: "string \<Rightarrow> string list" where
  "fenPartsOf fenString = splitWS (fenPartOf fenString)"

text \<open>\<open>fenParts[i] || d\<close>: the part when it exists and is not empty.\<close>

definition partOr :: "string list \<Rightarrow> nat \<Rightarrow> string \<Rightarrow> string" where
  "partOr fenParts i d = (if i < length fenParts \<and> fenParts ! i \<noteq> [] then fenParts ! i else d)"

definition parseFEN :: "string \<Rightarrow> ParsedFEN" where
  "parseFEN fenString =
     (let movePart = movePartOf fenString;
          fenParts = fenPartsOf fenString
      in if length fenParts < 4 then invalidFEN MissingComponents
         else
           (case parsePosition (fenParts ! 0) of
              Inl e \<Rightarrow> invalidFEN e
            | Inr position \<Rightarrow>
                \<lparr>fenStructure =
                   \<lparr>fenPosition = position,
                    activeColor = fenParts ! 1,
                    castling = parseCastlingRights (fenParts ! 2),
                    enPassant = fenParts ! 3,
                    halfMoveClock = parseInt (partOr fenParts 4 ''0''),
                    fullMoveNumber = parseInt (partOr fenParts 5 ''1''),
                    fenMoves = parseMoves movePart\<rparr>,
                 isValid = True, parseError = None\<rparr>))"

section \<open>The string-typed helpers of the earlier engine\<close>

text \<open>\<open>isFrenchFEN\<close>: the text before the first space is tested against \<open>/[DdTtFfCc]/\<close>.\<close>

definition isFrenchFEN :: "string \<Rightarrow> bool" where
  "isFrenchFEN fen =
     (case splitOn (CHR '' '') fen of
        [] \<Rightarrow> False
      | boardPart # _ \<Rightarrow> list_ex (\<lambda>c. c \<in> set ''DdTtFfCc'') boardPart)"

text \<open>\<open>s.replace(/a/g, 'b')\<close> for single characters.\<close>

definition replaceAll :: "char \<Rightarrow> char \<Rightarrow> string \<Rightarrow> string" where
  "replaceAll a b s = map (\<lambda>c. if c = a then b else c) s"

definition frenchToStandardFEN :: "string \<Rightarrow> string" where
  "frenchToStandardFEN fen =
     (if \<not> isFrenchFEN fen then fen
      else
        (replaceAll (CHR ''c'') (CHR ''n'') (replaceAll (CHR ''C'') (CHR ''N'')
        (replaceAll (CHR ''f'') (CHR ''b'') (replaceAll (CHR ''F'') (CHR ''B'')
        (replaceAll (CHR ''t'') (CHR ''r'') (replaceAll (CHR ''T'') (CHR ''R'')
        (replaceAll (CHR ''d'') (CHR ''q'') (replaceAll (CHR ''D'') (CHR ''Q'')
        (replaceAll (CHR ''r'') (CHR ''k'') (replaceAll (CHR ''R'') (CHR ''K'') fen)))))))))))"

text \<open>The earlier \<open>parseMoves\<close>, which removes every move number before it splits.\<close>

definition parseMoves_legacy :: "string \<Rightarrow> string list" where
  "parseMoves_legacy moveString =
     (if moveString = [] then []
      else filter (\<lambda>move. 0 < length move) (splitWS (trim (stripAllMoveNumbers moveString))))"

section \<open>Legality primitives\<close>

definition isWhitePiece :: "StandardPiece \<Rightarrow> bool" where
  "isWhitePiece piece =
     (piece \<in> set [WhiteKing, WhiteQueen, WhiteRook, WhiteBishop, WhiteKnight, WhitePawn])"

definition getPieceType :: "StandardPiece \<Rightarrow> string" where
  "getPieceType piece =
     (if piece \<in> set [WhiteKing, BlackKing] then ''K''
      else if piece \<in> set [WhiteQueen, BlackQueen] then ''Q''
      else if piece \<in> set [WhiteRook, BlackRook] then ''R''
      else if piece \<in> set [WhiteBishop, BlackBishop] then ''B''
      else if piece \<in> set [WhiteKnight, BlackKnight] then ''N''
      else if piece \<in> set [WhitePawn, BlackPawn] then ''P''
      else [])"

text \<open>\<open>position[String.fromCharCode(97 + file) + (8 - rank)]\<close>.\<close>

definition pieceAt :: "PositionMap \<Rightarrow> number \<Rightarrow> number \<Rightarrow> StandardPiece option" where
  "pieceAt position fileNum rankNum =
     (case squareName fileNum rankNum of None \<Rightarrow> None | Some square \<Rightarrow> map_of position square)"

text \<open>\<open>a !== b\<close> on numbers.\<close>

definition strictNe :: "number \<Rightarrow> number \<Rightarrow> bool" where
  "strictNe a b = (\<not> strictEq a b)"

text \<open>
  The \<open>while\<close> loop of \<open>isPieceBetween\<close>. Nothing bounds the number of its iterations,
  so it is a partial function: \<open>None\<close> means that the loop never exits.
\<close>

partial_function (option) pathLoop ::
  "PositionMap \<Rightarrow> number \<Rightarrow> number \<Rightarrow> int \<Rightarrow> int \<Rightarrow> number \<Rightarrow> number \<Rightarrow> bool option" where
  "pathLoop position toFile toRank fileStep rankStep currentFile currentRank =
     (if strictNe currentFile toFile \<or> strictNe currentRank toRank then
        (if pieceAt position currentFile currentRank \<noteq> None then Some True
         else pathLoop position toFile toRank fileStep rankStep
                (numAdd currentFile (Some fileStep)) (numAdd currentRank (Some rankStep)))
      else Some False)"

declare pathLoop.simps [code]

definition isPieceBetween :: "string \<Rightarrow> string \<Rightarrow> PositionMap \<Rightarrow> bool option" where
  "isPieceBetween from to position =
     (let fromFile = numSub (charCodeAt0 from) (Some 97);
          fromRank = numSub (Some 8) (parseIntAt1 from);
          toFile = numSub (charCodeAt0 to) (Some 97);
          toRank = numSub (Some 8) (parseIntAt1 to);
          fileStep = signOrZero (numSub toFile fromFile);
          rankStep = signOrZero (numSub toRank fromRank)
      in pathLoop position toFile toRank fileStep rankStep
           (numAdd fromFile (Some fileStep)) (numAdd fromRank (Some rankStep)))"

text \<open>\<open>cond && !isPieceBetween(from, to, position)\<close>: the call is made only when \<open>cond\<close> holds.\<close>

definition andNotBetween :: "bool \<Rightarrow> string \<Rightarrow> string \<Rightarrow> PositionMap \<Rightarrow> bool option" where
  "andNotBetween cond from to position =
     (if cond then map_option Not (isPieceBetween from to position) else Some False)"

definition isLegalMove :: "string \<Rightarrow> string \<Rightarrow> StandardPiece \<Rightarrow> PositionMap \<Rightarrow> bool option" where
  "isLegalMove from to piece position =
     (let fromFile = numSub (charCodeAt0 from) (Some 97);
          fromRank = numSub (Some 8) (parseIntAt1 from);
          toFile = numSub (charCodeAt0 to) (Some 97);
          toRank = numSub (Some 8) (parseIntAt1 to);
          deltaFile = numAbs (numSub toFile fromFile);
          deltaRank = numAbs (numSub toRank fromRank);
          pieceIsWhite = isWhitePiece piece;
          targetPiece = map_of position to;
          pieceType = getPieceType piece
      in if (case targetPiece of None \<Rightarrow> False
             | Some target \<Rightarrow> pieceIsWhite = isWhitePiece target) then Some False
         else if pieceType = ''P'' then
           (let forwardDirection = (if pieceIsWhite then - 1 else 1);
                startRank = (if pieceIsWhite then 6 else 1)
            in if strictEq fromFile toFile \<and> targetPiece = None
                  \<and> strictEq (numSub toRank fromRank) (Some forwardDirection) then Some True
               else if strictEq fromFile toFile \<and> targetPiece = None
                  \<and> strictEq fromRank (Some startRank)
                  \<and> strictEq (numSub toRank fromRank) (Some (forwardDirection * 2)) then
                 Some (pieceAt position fromFile (numAdd fromRank (Some forwardDirection)) = None)
               else Some (strictEq deltaFile (Some 1)
                          \<and> strictEq (numSub toRank fromRank) (Some forwardDirection)
                          \<and> targetPiece \<noteq> None))
         else if pieceType = ''R'' then
           andNotBetween (strictEq fromFile toFile \<or> strictEq fromRank toRank) from to position
         else if pieceType = ''N'' then
           Some ((strictEq deltaFile (Some 2) \<and> strictEq deltaRank (Some 1))
                 \<or> (strictEq deltaFile (Some 1) \<and> strictEq deltaRank (Some 2)))
         else if pieceType = ''B'' then
           andNotBetween (strictEq deltaFile deltaRank) from to position
         else if pieceType = ''Q'' then
           andNotBetween ((strictEq fromFile toFile \<or> strictEq fromRank toRank)
                          \<or> strictEq deltaFile deltaRank) from to position
         else if pieceType = ''K'' then
           Some (numLe deltaFile 1 \<and> numLe deltaRank 1)
         else Some False)"

section \<open>Move resolution\<close>

text \<open>
  \<open>MoveDetail\<close> extends \<open>SecondaryMove\<close> by the optional rook move. The fields \<open>from\<close>,
  \<open>to\<close> and \<open>piece\<close> of the source are \<open>moveFrom\<close>, \<open>moveTo\<close> and \<open>movePiece\<close>.
\<close>

record SecondaryMove =
  moveFrom :: string
  moveTo :: string
  movePiece :: StandardPiece

record MoveDetail = SecondaryMove +
  secondaryMove :: "SecondaryMove option"

text \<open>
  \<open>xs.find(pred)\<close> for a predicate that may not return: the elements are tried in
  order, and the search does not return when a call of the predicate does not.
\<close>

fun findFirst :: "('a \<Rightarrow> bool option) \<Rightarrow> 'a list \<Rightarrow> 'a option option" where
  "findFirst pred [] = Some None"
| "findFirst pred (x # xs) =
     (case pred x of
        None \<Rightarrow> None
      | Some b \<Rightarrow> (if b then Some (Some x) else findFirst pred xs))"

text \<open>\<open>parts[i] ?? ''\<close>.\<close>

definition nthOrEmpty :: "string list \<Rightarrow> nat \<Rightarrow> string" where
  "nthOrEmpty parts i = (if i < length parts then parts ! i else [])"

text \<open>The piece named by the first letter of a piece move, for the side to move.\<close>

definition pieceForLetter :: "char \<Rightarrow> bool \<Rightarrow> StandardPiece" where
  "pieceForLetter pieceChar isWhiteTurn =
     (if pieceChar = CHR ''K'' then (if isWhiteTurn then WhiteKing else BlackKing)
      else if pieceChar = CHR ''Q'' then (if isWhiteTurn then WhiteQueen else BlackQueen)
      else if pieceChar = CHR ''R'' then (if isWhiteTurn then WhiteRook else BlackRook)
      else if pieceChar = CHR ''B'' then (if isWhiteTurn then WhiteBishop else BlackBishop)
      else if pieceChar = CHR ''N'' then (if isWhiteTurn then WhiteKnight else BlackKnight)
      else (if isWhiteTurn then WhitePawn else BlackPawn))"

text \<open>
  The classification of a cleaned token: the piece, the disambiguation and the target
  square.
\<close>

definition classifyMove :: "string \<Rightarrow> bool \<Rightarrow> StandardPiece \<times> string \<times> string" where
  "classifyMove cleanMove isWhiteTurn =
     (case cleanMove of
        pieceChar # rest \<Rightarrow>
          (if pieceChar \<in> set ''KQRBN'' then
             (let piece = pieceForLetter pieceChar isWhiteTurn
              in if CHR ''x'' \<in> set rest then
                   (let parts = splitOn (CHR ''x'') rest
                    in (piece, nthOrEmpty parts 0, nthOrEmpty parts 1))
                 else if 2 < length rest then
                   (piece, take (length rest - 2) rest, drop (length rest - 2) rest)
                 else (piece, [], rest))
           else
             (let piece = (if isWhiteTurn then WhitePawn else BlackPawn)
              in if CHR ''x'' \<in> set cleanMove then
                   (let parts = splitOn (CHR ''x'') cleanMove
                    in (piece, nthOrEmpty parts 0, nthOrEmpty parts 1))
                 else (piece, [], cleanMove)))
      | [] \<Rightarrow> ((if isWhiteTurn then WhitePawn else BlackPawn), [], []))"

definition castlingMove :: "string \<Rightarrow> bool \<Rightarrow> MoveDetail" where
  "castlingMove move isWhiteTurn =
     (let rank = (if isWhiteTurn then ''1'' else ''8'');
          king = (if isWhiteTurn then WhiteKing else BlackKing);
          rook = (if isWhiteTurn then WhiteRook else BlackRook)
      in if move = ''O-O'' then
           \<lparr>moveFrom = ''e'' @ rank, moveTo = ''g'' @ rank, movePiece = king,
            secondaryMove = Some \<lparr>moveFrom = ''h'' @ rank, moveTo = ''f'' @ rank, movePiece = rook\<rparr>\<rparr>
         else
           \<lparr>moveFrom = ''e'' @ rank, moveTo = ''c'' @ rank, movePiece = king,
            secondaryMove = Some \<lparr>moveFrom = ''a'' @ rank, moveTo = ''d'' @ rank, movePiece = rook\<rparr>\<rparr>)"

text \<open>
  The token without the annotation glyphs \<open>+ # ! ?\<close>, converted to the standard
  alphabet when it starts with a French piece letter.
\<close>

definition cleanMove :: "string \<Rightarrow> string" where
  "cleanMove move =
     (let stripped = filter (\<lambda>c. c \<notin> set ''+#!?'') move
      in if isFrenchNotation stripped then convertMoveToStandard stripped else stripped)"

text \<open>
  The squares that hold the piece, in the order of \<open>for (squareKey in position)\<close>, and
  those of them that contain the disambiguation.
\<close>

definition candidateSquares :: "PositionMap \<Rightarrow> StandardPiece \<Rightarrow> string list" where
  "candidateSquares position piece =
     filter (\<lambda>square. map_of position square = Some piece) (forInKeys position)"

definition validSquares :: "PositionMap \<Rightarrow> StandardPiece \<Rightarrow> string \<Rightarrow> string list" where
  "validSquares position piece disambiguation =
     (if disambiguation \<noteq> [] then
        filter (\<lambda>square. includesStr square disambiguation) (candidateSquares position piece)
      else candidateSquares position piece)"

text \<open>
  \<open>findPieceForMove\<close>. The outer \<open>None\<close> is a call that does not return; \<open>Some None\<close> is
  the value \<open>null\<close>.
\<close>

definition findPieceForMove :: "PositionMap \<Rightarrow> string \<Rightarrow> bool \<Rightarrow> MoveDetail option option" where
  "findPieceForMove position move isWhiteTurn =
     (if move = ''O-O'' \<or> move = ''O-O-O'' then Some (Some (castlingMove move isWhiteTurn))
      else
        (let (piece, disambiguation, targetSquare) = classifyMove (cleanMove move) isWhiteTurn
         in if targetSquare = [] \<or> length targetSquare \<noteq> 2 then Some None
            else
              (case findFirst (\<lambda>square. isLegalMove square targetSquare piece position)
                      (validSquares position piece disambiguation) of
                 None \<Rightarrow> None
               | Some None \<Rightarrow> Some None
               | Some (Some legalSquare) \<Rightarrow>
                   (if legalSquare \<noteq> [] then
                      Some (Some \<lparr>moveFrom = legalSquare, moveTo = targetSquare,
                                  movePiece = piece, secondaryMove = None\<rparr>)
                    else Some None))))"

section \<open>The position sequencer\<close>

datatype console_line =
    InvalidMoveAtIndex nat string string
  | SomeMovesNotExecuted nat nat

datatype sequencing_error = MovesCouldNotBeExecuted

record GeneratePositionsResult =
  positions :: "PositionMap list"
  moveDetails :: "MoveDetail list"
  error :: "sequencing_error option"

text \<open>
  The variables the \<open>forEach\<close> callback of \<open>generatePositions\<close> updates, and the lines
  it writes with \<open>console.warn\<close>.
\<close>

record SequencerState =
  positionsAcc :: "PositionMap list"
  moveDetailsAcc :: "MoveDetail list"
  currentPos :: PositionMap
  isWhiteTurn :: bool
  console :: "console_line list"

text \<open>The primary move, then the secondary move when there is one.\<close>

definition applyMove :: "PositionMap \<Rightarrow> MoveDetail \<Rightarrow> PositionMap" where
  "applyMove pos moveInfo =
     (let newPos = AList.update (moveTo moveInfo) (movePiece moveInfo)
                     (AList.delete (moveFrom moveInfo) pos)
      in (case secondaryMove moveInfo of
            None \<Rightarrow> newPos
          | Some secondary \<Rightarrow>
              AList.update (moveTo secondary) (movePiece secondary)
                (AList.delete (moveFrom secondary) newPos)))"

fun forEachMove :: "string list \<Rightarrow> nat \<Rightarrow> SequencerState \<Rightarrow> SequencerState option" where
  "forEachMove [] index st = Some st"
| "forEachMove (move # rest) index st =
     (let standardMove = (if isFrenchNotation move then convertMoveToStandard move else move)
      in (case findPieceForMove (currentPos st) standardMove (isWhiteTurn st) of
            None \<Rightarrow> None
          | Some None \<Rightarrow>
              forEachMove rest (index + 1)
                (st\<lparr>console := console st @ [InvalidMoveAtIndex index move standardMove],
                    positionsAcc := positionsAcc st @ [currentPos st],
                    isWhiteTurn := \<not> isWhiteTurn st\<rparr>)
          | Some (Some moveInfo) \<Rightarrow>
              forEachMove rest (index + 1)
                (st\<lparr>moveDetailsAcc := moveDetailsAcc st @ [moveInfo],
                    currentPos := applyMove (currentPos st) moveInfo,
                    positionsAcc := positionsAcc st @ [applyMove (currentPos st) moveInfo],
                    isWhiteTurn := \<not> isWhiteTurn st\<rparr>)))"

definition initialState :: "PositionMap \<Rightarrow> SequencerState" where
  "initialState initialPos =
     \<lparr>positionsAcc = [], moveDetailsAcc = [], currentPos = initialPos,
      isWhiteTurn = True, console = []\<rparr>"

text \<open>
  \<open>generatePositions\<close>: the returned object; \<open>None\<close> when the call does not return.
  \<open>generatePositionsConsole\<close>: what the call has written to the console.
\<close>

definition generatePositions :: "PositionMap \<Rightarrow> string list \<Rightarrow> GeneratePositionsResult option" where
  "generatePositions initialPos moveList =
     (case forEachMove moveList 0 (initialState initialPos) of
        None \<Rightarrow> None
      | Some st \<Rightarrow>
          Some \<lparr>positions = positionsAcc st, moveDetails = moveDetailsAcc st,
                error = (if length (positionsAcc st) \<noteq> length moveList
                         then Some MovesCouldNotBeExecuted else None)\<rparr>)"

definition generatePositionsConsole :: "PositionMap \<Rightarrow> string list \<Rightarrow> console_line list option" where
  "generatePositionsConsole initialPos moveList =
     (case forEachMove moveList 0 (initialState initialPos) of
        None \<Rightarrow> None
      | Some st \<Rightarrow>
          Some (console st @
                (if length (positionsAcc st) \<noteq> length moveList
                 then [SomeMovesNotExecuted (length moveList) (length (positionsAcc st))]
                 else [])))"

section \<open>Reference data of the tests\<close>

text \<open>
  The standard initial position, as \<open>parsePosition\<close> builds it (rank 8 first), and the
  table \<open>expectedStandardPositions\<close> of FENParser.test.ts.
\<close>

definition standardInitialPosition :: PositionMap where
  "standardInitialPosition =
     [(''a8'', BlackRook), (''b8'', BlackKnight), (''c8'', BlackBishop), (''d8'', BlackQueen),
      (''e8'', BlackKing), (''f8'', BlackBishop), (''g8'', BlackKnight), (''h8'', BlackRook),
      (''a7'', BlackPawn), (''b7'', BlackPawn), (''c7'', BlackPawn), (''d7'', BlackPawn),
      (''e7'', BlackPawn), (''f7'', BlackPawn), (''g7'', BlackPawn), (''h7'', BlackPawn),
      (''a2'', WhitePawn), (''b2'', WhitePawn), (''c2'', WhitePawn), (''d2'', WhitePawn),
      (''e2'', WhitePawn), (''f2'', WhitePawn), (''g2'', WhitePawn), (''h2'', WhitePawn),
      (''a1'', WhiteRook), (''b1'', WhiteKnight), (''c1'', WhiteBishop), (''d1'', WhiteQueen),
      (''e1'', WhiteKing), (''f1'', WhiteBishop), (''g1'', WhiteKnight), (''h1'', WhiteRook)]"

definition expectedStandardPositions :: "(string \<times> StandardPiece) list" where
  "expectedStandardPositions =
     [(''a1'', WhiteRook), (''b1'', WhiteKnight), (''c1'', WhiteBishop), (''d1'', WhiteQueen),
      (''e1'', WhiteKing), (''f1'', WhiteBishop), (''g1'', WhiteKnight), (''h1'', WhiteRook),
      (''a8'', BlackRook), (''b8'', BlackKnight), (''c8'', BlackBishop), (''d8'', BlackQueen),
      (''e8'', BlackKing), (''f8'', BlackBishop), (''g8'', BlackKnight), (''h8'', BlackRook),
      (''a2'', WhitePawn), (''b2'', WhitePawn), (''c2'', WhitePawn), (''d2'', WhitePawn),
      (''e2'', WhitePawn), (''f2'', WhitePawn), (''g2'', WhitePawn), (''h2'', WhitePawn),
      (''a7'', BlackPawn), (''b7'', BlackPawn), (''c7'', BlackPawn), (''d7'', BlackPawn),
      (''e7'', BlackPawn), (''f7'', BlackPawn), (''g7'', BlackPawn), (''h7'', BlackPawn)]"

section \<open>Predicates of the statements\<close>

text \<open>
  A key that reads as a square: one character for the file and one decimal digit for
  the rank. Every key that \<open>parsePosition\<close> and the sequencer create has this shape.
\<close>

definition squareLike :: "string \<Rightarrow> bool" where
  "squareLike k = (case k of [c, d] \<Rightarrow> isDigit d | _ \<Rightarrow> False)"

definition squareKeys :: "PositionMap \<Rightarrow> bool" where
  "squareKeys position = list_all squareLike (map fst position)"

text \<open>A square of the board: a file \<open>a\<close> to \<open>h\<close> and a rank \<open>1\<close> to \<open>8\<close>.\<close>

definition boardSquare :: "string \<Rightarrow> bool" where
  "boardSquare sq =
     (case sq of [f, r] \<Rightarrow> f \<in> set ''abcdefgh'' \<and> r \<in> set ''12345678'' | _ \<Rightarrow> False)"

text \<open>Two squares share a file, a rank or a diagonal.\<close>

definition onOneLine :: "string \<Rightarrow> string \<Rightarrow> bool" where
  "onOneLine from to =
     (hd from = hd to \<or> from ! 1 = to ! 1
      \<or> \<bar>(of_char (hd to) :: int) - of_char (hd from)\<bar>
          = \<bar>(of_char (to ! 1) :: int) - of_char (from ! 1)\<bar>)"

text \<open>
  The move as \<open>generatePositions\<close> hands it to the resolver, and the state of the loop
  before the move of index \<open>i\<close>.
\<close>

definition standardMoveOf :: "string \<Rightarrow> string" where
  "standardMoveOf move = (if isFrenchNotation move then convertMoveToStandard move else move)"

definition stateBefore :: "PositionMap \<Rightarrow> string list \<Rightarrow> nat \<Rightarrow> SequencerState option" where
  "stateBefore initialPos moveList i = forEachMove (take i moveList) 0 (initialState initialPos)"


text \<open>
  A well-formed board section, in the words of the specification: exactly 8 ranks
  between slashes, every character a digit or a recognised piece letter, and in every
  rank the digits and the letters (one file each) sum to 8 files. The recognised letters
  are those of the standard alphabet and, in a section classified as French, those of
  the French alphabet too.
\<close>

definition recognisedLetter :: "bool \<Rightarrow> char \<Rightarrow> bool" where
  "recognisedLetter french c = (isStandardPiece c \<or> (french \<and> isFrenchPiece c))"

definition fileWidth :: "char \<Rightarrow> int" where
  "fileWidth c = (if isDigit c then digitVal c else 1)"

definition wellFormedRank :: "bool \<Rightarrow> string \<Rightarrow> bool" where
  "wellFormedRank french rank =
     (list_all (\<lambda>c. isDigit c \<or> recognisedLetter french c) rank
      \<and> sum_list (map fileWidth rank) = 8)"

definition wellFormedBoard :: "string \<Rightarrow> bool" where
  "wellFormedBoard boardPart =
     (length (splitOn (CHR ''/'') boardPart) = 8
      \<and> list_all (wellFormedRank (isFrenchFENNotation boardPart)) (splitOn (CHR ''/'') boardPart))"

text \<open>
  The characters of a board section in the standard alphabet, and what the ten
  replacements of \<open>frenchToStandardFEN\<close>, made one after the other, do to one character.
\<close>

definition standardAlphabetChar :: "char \<Rightarrow> bool" where
  "standardAlphabetChar c = (c = CHR ''/'' \<or> isDigit c \<or> isStandardPiece c)"

definition toStandardChar :: "char \<Rightarrow> char" where
  "toStandardChar x =
     (if x = CHR ''R'' then CHR ''K'' else if x = CHR ''r'' then CHR ''k''
      else if x = CHR ''D'' then CHR ''Q'' else if x = CHR ''d'' then CHR ''q''
      else if x = CHR ''T'' then CHR ''R'' else if x = CHR ''t'' then CHR ''r''
      else if x = CHR ''F'' then CHR ''B'' else if x = CHR ''f'' then CHR ''b''
      else if x = CHR ''C'' then CHR ''N'' else if x = CHR ''c'' then CHR ''n''
      else x)"

text \<open>
  The tokenizer in the words of the specification: all move numbers removed, blanks
  collapsed, split at blanks, empty tokens dropped. And the tokens of a move section
  when only a leading move number is removed from each.
\<close>

definition tokenize_spec :: "string \<Rightarrow> string list" where
  "tokenize_spec moveSection =
     filter (\<lambda>token. token \<noteq> []) (splitWS (collapseWS (stripAllMoveNumbers moveSection)))"

definition leadingStripped :: "string \<Rightarrow> string list" where
  "leadingStripped moveSection =
     filter (\<lambda>token. token \<noteq> [])
       (map stripMoveNumber (filter (\<lambda>token. token \<noteq> []) (splitWS moveSection)))"

section \<open>Evaluation on concrete inputs\<close>

lemmas js_defs =
  isDigit_def digitVal_def isWhiteSpace_def NumberOfChar_def parseIntChar_def
  numAdd_def numSub_def numAbs_def strictEq_def strictNe_def numGe_def numGt_def numLe_def
  signOrZero_def numToString_def fromCharCode_def squareName_def charCodeAt0_def
  parseIntAt1_def char_of_def bit_Suc_0_iff

lemmas parse_defs =
  parsePosition_def parseRank_def pieceOfChar_def standardSwitch_def frenchSwitch_def
  isFrenchPiece_def allPieces_def toUpperCase_def isFrenchFENNotation_def coordsToAlgebraic_def

lemmas move_defs =
  findPieceForMove_def cleanMove_def candidateSquares_def validSquares_def
  castlingMove_def classifyMove_def isFrenchNotation_def
  convertMoveToStandard_def convertPieceToStandard_def forInKeys_def isArrayIndex_def
  isLegalMove_def getPieceType_def isWhitePiece_def pieceAt_def pieceForLetter_def
  nthOrEmpty_def andNotBetween_def isPieceBetween_def

lemmas sequencer_defs =
  generatePositions_def generatePositionsConsole_def initialState_def applyMove_def

lemma standard_initial_position_decodes:
  "parsePosition ''rnbqkbnr/pppppppp/8/8/8/8/PPPPPPPP/RNBQKBNR'' = Inr standardInitialPosition"
  by (simp add: standardInitialPosition_def js_defs parse_defs)

section \<open>The sequencer on the documented example\<close>

text \<open>
  Claim C1. From the standard initial position, decoded from
  \<open>rnbqkbnr/pppppppp/8/8/8/8/PPPPPPPP/RNBQKBNR\<close>, and the move list \<open>e4 e5 Nf3 Nc6\<close>
  (white moves first), \<open>generatePositions\<close> returns four positions; the third one has the
  white knight on f3 and nothing on g1.
\<close>

theorem generatePositions_documented_example:
  "\<exists>initialPos r.
     parsePosition ''rnbqkbnr/pppppppp/8/8/8/8/PPPPPPPP/RNBQKBNR'' = Inr initialPos
     \<and> generatePositions initialPos [''e4'', ''e5'', ''Nf3'', ''Nc6''] = Some r
     \<and> length (positions r) = 4
     \<and> map_of (positions r ! 2) ''f3'' = Some WhiteKnight
     \<and> map_of (positions r ! 2) ''g1'' = None"
proof -
  have "\<exists>r. generatePositions standardInitialPosition [''e4'', ''e5'', ''Nf3'', ''Nc6''] = Some r
     \<and> length (positions r) = 4
     \<and> map_of (positions r ! 2) ''f3'' = Some WhiteKnight
     \<and> map_of (positions r ! 2) ''g1'' = None"
    by (simp add: standardInitialPosition_def js_defs move_defs sequencer_defs Let_def)
  with standard_initial_position_decodes show ?thesis
    by blast
qed

section \<open>Castling\<close>

text \<open>
  Claim C6. Whatever the position holds, the token \<open>O-O\<close> resolves to the king move
  e1-g1 with the rook move h1-f1 for white, and e8-g8 with h8-f8 for black; the token
  \<open>O-O-O\<close> resolves to e1-c1 with a1-d1 for white, and e8-c8 with a8-d8 for black. The
  position is not consulted: neither the presence of king and rook nor the emptiness of
  the path is checked.
\<close>

theorem castling_is_fixed_for_every_position:
  "findPieceForMove position ''O-O'' True =
     Some (Some \<lparr>moveFrom = ''e1'', moveTo = ''g1'', movePiece = WhiteKing,
                 secondaryMove = Some \<lparr>moveFrom = ''h1'', moveTo = ''f1'', movePiece = WhiteRook\<rparr>\<rparr>)
   \<and> findPieceForMove position ''O-O'' False =
     Some (Some \<lparr>moveFrom = ''e8'', moveTo = ''g8'', movePiece = BlackKing,
                 secondaryMove = Some \<lparr>moveFrom = ''h8'', moveTo = ''f8'', movePiece = BlackRook\<rparr>\<rparr>)
   \<and> findPieceForMove position ''O-O-O'' True =
     Some (Some \<lparr>moveFrom = ''e1'', moveTo = ''c1'', movePiece = WhiteKing,
                 secondaryMove = Some \<lparr>moveFrom = ''a1'', moveTo = ''d1'', movePiece = WhiteRook\<rparr>\<rparr>)
   \<and> findPieceForMove position ''O-O-O'' False =
     Some (Some \<lparr>moveFrom = ''e8'', moveTo = ''c8'', movePiece = BlackKing,
                 secondaryMove = Some \<lparr>moveFrom = ''a8'', moveTo = ''d8'', movePiece = BlackRook\<rparr>\<rparr>)"
  by (simp add: findPieceForMove_def castlingMove_def Let_def)

section \<open>Termination of the legality primitives and of the resolver\<close>

lemma pathLoop_returns_on_line:
  "tf = cf + int n * fs \<Longrightarrow> tr = cr + int n * rs \<Longrightarrow>
     \<exists>b. pathLoop position (Some tf) (Some tr) fs rs (Some cf) (Some cr) = Some b"
proof (induction n arbitrary: cf cr)
  case 0
  then show ?case
    by (subst pathLoop.simps) (auto simp: strictNe_def strictEq_def)
next
  case (Suc n)
  have "tf = (cf + fs) + int n * fs" "tr = (cr + rs) + int n * rs"
    using Suc.prems by (simp_all add: algebra_simps)
  from Suc.IH [OF this] obtain b
    where "pathLoop position (Some tf) (Some tr) fs rs (Some (cf + fs)) (Some (cr + rs)) = Some b"
    by blast
  then show ?case
    by (subst pathLoop.simps) (auto simp: numAdd_def)
qed

lemma pathLoop_NaN_rank_only_true:
  assumes "pathLoop position toFile toRank fs rs cf cr = Some b"
  shows "toRank = None \<longrightarrow> b = True"
proof (rule pathLoop.raw_induct [rotated, where P = "\<lambda>position toFile toRank fs rs cf cr b. toRank = None \<longrightarrow> b = True", OF assms])
  fix f position toFile toRank fs rs cf cr b
  assume IH: "\<And>position toFile toRank fs rs cf cr b. f position toFile toRank fs rs cf cr = Some b \<Longrightarrow> toRank = None \<longrightarrow> b = True"
    and step: "(if strictNe cf toFile \<or> strictNe cr toRank then
        (if pieceAt position cf cr \<noteq> None then Some True
         else f position toFile toRank fs rs (numAdd cf (Some fs)) (numAdd cr (Some rs)))
      else Some False) = Some b"
  show "toRank = None \<longrightarrow> b = True"
  proof
    assume n: "toRank = None"
    then have "strictNe cr toRank"
      by (simp add: strictNe_def strictEq_def split: option.splits)
    with step have "(if pieceAt position cf cr \<noteq> None then Some True
         else f position toFile toRank fs rs (numAdd cf (Some fs)) (numAdd cr (Some rs))) = Some b"
      by simp
    then have *: "(if pieceAt position cf cr \<noteq> None then Some True
         else f position toFile toRank fs rs (numAdd cf (Some fs)) (numAdd cr (Some rs))) = Some b" .
    show "b = True"
    proof (cases "pieceAt position cf cr = None")
      case True
      with * have "f position toFile toRank fs rs (numAdd cf (Some fs)) (numAdd cr (Some rs)) = Some b"
        by simp
      from IH [OF this] n show ?thesis
        by simp
    next
      case False
      with * show ?thesis
        by simp
    qed
  qed
qed


lemma steps_reach_target:
  fixes ff fr tf tr :: int
  assumes "ff = tf \<or> fr = tr \<or> \<bar>tf - ff\<bar> = \<bar>tr - fr\<bar>"
  shows "\<exists>n. tf = (ff + sgn (tf - ff)) + int n * sgn (tf - ff)
           \<and> tr = (fr + sgn (tr - fr)) + int n * sgn (tr - fr)"
proof (cases "ff = tf \<and> fr = tr")
  case True
  then show ?thesis by simp
next
  case False
  define d where "d = max \<bar>tf - ff\<bar> \<bar>tr - fr\<bar>"
  have d: "1 \<le> d"
    using False by (auto simp: d_def max_def)
  have f: "tf - ff = d * sgn (tf - ff)"
    using assms False by (auto simp: d_def max_def sgn_if abs_if split: if_splits)
  have r: "tr - fr = d * sgn (tr - fr)"
    using assms False by (auto simp: d_def max_def sgn_if abs_if split: if_splits)
  obtain n :: nat where n: "int n = d - 1"
    using d by (metis nat_0_le diff_ge_0_iff_ge)
  have "ff + sgn (tf - ff) + int n * sgn (tf - ff) = ff + d * sgn (tf - ff)"
    and "fr + sgn (tr - fr) + int n * sgn (tr - fr) = fr + d * sgn (tr - fr)"
    by (simp_all add: n algebra_simps)
  with f r have "tf = (ff + sgn (tf - ff)) + int n * sgn (tf - ff)
           \<and> tr = (fr + sgn (tr - fr)) + int n * sgn (tr - fr)"
    by simp
  then show ?thesis ..
qed

lemma isPieceBetween_returns_on_line:
  assumes "charCodeAt0 from = Some a" and "parseIntAt1 from = Some r"
    and "charCodeAt0 to = Some a'" and "parseIntAt1 to = Some r'"
    and "a = a' \<or> r = r' \<or> \<bar>a' - a\<bar> = \<bar>r' - r\<bar>"
  shows "\<exists>b. isPieceBetween from to position = Some b"
proof -
  let ?ff = "a - 97" and ?fr = "8 - r" and ?tf = "a' - 97" and ?tr = "8 - r'"
  have "?ff = ?tf \<or> ?fr = ?tr \<or> \<bar>?tf - ?ff\<bar> = \<bar>?tr - ?fr\<bar>"
    using assms(5) by auto
  from steps_reach_target [OF this] obtain n
    where "?tf = (?ff + sgn (?tf - ?ff)) + int n * sgn (?tf - ?ff)"
      and "?tr = (?fr + sgn (?tr - ?fr)) + int n * sgn (?tr - ?fr)"
    by blast
  from pathLoop_returns_on_line [OF this, of position]
  show ?thesis
    using assms(1-4) by (simp add: isPieceBetween_def numSub_def numAdd_def signOrZero_def Let_def)
qed

lemma squareLike_coords:
  assumes "squareLike k"
  shows "\<exists>c d. k = [c, d] \<and> isDigit d \<and> charCodeAt0 k = Some (of_char c)
           \<and> parseIntAt1 k = Some (digitVal d)"
  using assms
  by (auto simp: squareLike_def charCodeAt0_def parseIntAt1_def parseIntChar_def
           split: list.splits)

lemma int_of_char: "(of_char c :: int) = int (of_char c)"
  by (simp add: of_nat_of_char)

lemma decimalDigits_digit:
  assumes "isDigit d"
  shows "decimalDigits (nat (digitVal d)) = [d]"
proof -
  define n :: nat where "n = of_char d"
  have n: "48 \<le> n" "n \<le> 57"
    using assms by (simp_all add: isDigit_def n_def)
  have "nat (digitVal d) = n - 48"
    by (simp add: digitVal_def int_of_char n_def)
  moreover have "char_of (48 + (n - 48)) = d"
    using n by (simp add: n_def)
  ultimately show ?thesis
    using n by simp
qed

lemma squareName_of_square:
  assumes "isDigit d"
  shows "squareName (numSub (charCodeAt0 [c, d]) (Some 97)) (numSub (Some 8) (parseIntAt1 [c, d]))
           = Some [c, d]"
proof -
  define m :: nat where "m = of_char c"
  have m: "m < 256"
    by (simp add: m_def)
  have "int m mod 65536 = int m"
    using m by simp
  then have "nat ((of_char c :: int) mod 65536) = m"
    by (simp only: int_of_char m_def [symmetric] nat_int)
  moreover have "char_of m = c"
    by (simp add: m_def)
  moreover have "0 \<le> digitVal d"
    using assms by (simp add: isDigit_def digitVal_def int_of_char)
  ultimately show ?thesis
    using assms decimalDigits_digit [OF assms] m
    by (simp add: squareName_def charCodeAt0_def parseIntAt1_def parseIntChar_def numSub_def
                  numAdd_def fromCharCode_def numToString_def Let_def)
qed


lemma isPieceBetween_returns_for_candidate:
  assumes fsq: "squareLike from" and tsq: "length to = 2"
    and occ: "map_of position from \<noteq> None \<or> parseIntAt1 to \<noteq> None"
    and line: "strictEq (numSub (charCodeAt0 from) (Some 97)) (numSub (charCodeAt0 to) (Some 97))
       \<or> strictEq (numSub (Some 8) (parseIntAt1 from)) (numSub (Some 8) (parseIntAt1 to))
       \<or> strictEq (numAbs (numSub (numSub (charCodeAt0 to) (Some 97)) (numSub (charCodeAt0 from) (Some 97))))
                   (numAbs (numSub (numSub (Some 8) (parseIntAt1 to)) (numSub (Some 8) (parseIntAt1 from))))"
  shows "\<exists>b. isPieceBetween from to position = Some b"
proof -
  from squareLike_coords [OF fsq] obtain c d
    where k: "from = [c, d]" "isDigit d" "charCodeAt0 from = Some (of_char c)"
      "parseIntAt1 from = Some (digitVal d)"
    by blast
  from tsq obtain c' d' where t: "to = [c', d']"
    by (cases to; cases "tl to") auto
  have tf: "charCodeAt0 to = Some (of_char c')"
    by (simp add: t charCodeAt0_def)
  show ?thesis
  proof (cases "parseIntAt1 to")
    case (Some r')
    with line k tf have "of_char c = (of_char c' :: int) \<or> digitVal d = r'
        \<or> \<bar>of_char c' - (of_char c :: int)\<bar> = \<bar>r' - digitVal d\<bar>"
      by (auto simp: strictEq_def numSub_def numAbs_def)
    from isPieceBetween_returns_on_line [OF k(3) k(4) tf Some this] show ?thesis .
  next
    case None
    with line k tf have same: "of_char c = (of_char c' :: int)"
      by (auto simp: strictEq_def numSub_def numAbs_def)
    have "squareName (Some (of_char c - 97)) (Some (8 - digitVal d)) = Some from"
      using squareName_of_square [OF k(2), of c] k(3,4) by (simp add: k(1) numSub_def)
    with occ None have "pieceAt position (Some (of_char c - 97)) (Some (8 - digitVal d)) \<noteq> None"
      by (simp add: pieceAt_def)
    then have "pathLoop position (Some (of_char c' - 97)) None 0 0
                 (Some (of_char c - 97)) (Some (8 - digitVal d)) = Some True"
      by (subst pathLoop.simps) (simp add: strictNe_def strictEq_def)
    then show ?thesis
      using None k tf same
      by (auto simp: isPieceBetween_def numSub_def numAdd_def signOrZero_def Let_def)
  qed
qed

lemma andNotBetween_returns:
  assumes "cond \<Longrightarrow> \<exists>b. isPieceBetween from to position = Some b"
  shows "\<exists>b. andNotBetween cond from to position = Some b"
  using assms by (auto simp: andNotBetween_def)

lemma returns_if:
  assumes "c \<Longrightarrow> \<exists>b. x = Some b" and "\<not> c \<Longrightarrow> \<exists>b. y = Some b"
  shows "\<exists>b. (if c then x else y) = Some b"
  using assms by simp

lemma returns_Some: "\<exists>b. Some v = Some b"
  by simp

lemma isLegalMove_returns:
  assumes fsq: "squareLike from" and tsq: "length to = 2"
    and occ: "map_of position from \<noteq> None \<or> parseIntAt1 to \<noteq> None"
  shows "\<exists>b. isLegalMove from to piece position = Some b"
proof -
  note between = isPieceBetween_returns_for_candidate [OF fsq tsq occ]
  have R: "\<exists>b. andNotBetween
             (strictEq (numSub (charCodeAt0 from) (Some 97)) (numSub (charCodeAt0 to) (Some 97))
              \<or> strictEq (numSub (Some 8) (parseIntAt1 from)) (numSub (Some 8) (parseIntAt1 to)))
             from to position = Some b"
    by (rule andNotBetween_returns) (rule between, blast)
  have B: "\<exists>b. andNotBetween
             (strictEq (numAbs (numSub (numSub (charCodeAt0 to) (Some 97)) (numSub (charCodeAt0 from) (Some 97))))
                       (numAbs (numSub (numSub (Some 8) (parseIntAt1 to)) (numSub (Some 8) (parseIntAt1 from)))))
             from to position = Some b"
    by (rule andNotBetween_returns) (rule between, blast)
  have Q: "\<exists>b. andNotBetween
             ((strictEq (numSub (charCodeAt0 from) (Some 97)) (numSub (charCodeAt0 to) (Some 97))
               \<or> strictEq (numSub (Some 8) (parseIntAt1 from)) (numSub (Some 8) (parseIntAt1 to)))
              \<or> strictEq (numAbs (numSub (numSub (charCodeAt0 to) (Some 97)) (numSub (charCodeAt0 from) (Some 97))))
                          (numAbs (numSub (numSub (Some 8) (parseIntAt1 to)) (numSub (Some 8) (parseIntAt1 from)))))
             from to position = Some b"
    by (rule andNotBetween_returns) (rule between, blast)
  show ?thesis
    unfolding isLegalMove_def Let_def
    by (intro returns_if returns_Some R B Q)
qed


lemma andNotBetween_true_has_rank:
  assumes "andNotBetween cond from to position = Some True"
  shows "parseIntAt1 to \<noteq> None"
proof
  assume n: "parseIntAt1 to = None"
  from assms have "isPieceBetween from to position = Some False"
    by (auto simp: andNotBetween_def split: if_splits)
  then have "pathLoop position (numSub (charCodeAt0 to) (Some 97)) None
               (signOrZero (numSub (numSub (charCodeAt0 to) (Some 97)) (numSub (charCodeAt0 from) (Some 97))))
               (signOrZero (numSub None (numSub (Some 8) (parseIntAt1 from))))
               (numAdd (numSub (charCodeAt0 from) (Some 97))
                  (Some (signOrZero (numSub (numSub (charCodeAt0 to) (Some 97)) (numSub (charCodeAt0 from) (Some 97))))))
               (numAdd (numSub (Some 8) (parseIntAt1 from))
                  (Some (signOrZero (numSub None (numSub (Some 8) (parseIntAt1 from))))))
             = Some False"
    by (simp add: isPieceBetween_def Let_def n numSub_def)
  from pathLoop_NaN_rank_only_true [OF this] show False
    by simp
qed

lemma isLegalMove_true_has_rank:
  assumes "isLegalMove from to piece position = Some True"
  shows "parseIntAt1 to \<noteq> None"
proof
  assume n: "parseIntAt1 to = None"
  have nan: "numSub (Some 8) (parseIntAt1 to) = None"
    by (simp add: n numSub_def)
  have no: "\<And>cond. andNotBetween cond from to position \<noteq> Some True"
    using andNotBetween_true_has_rank n by blast
  have eqs: "\<And>x. strictEq None x = False" "\<And>x. strictEq x None = False"
    "\<And>x. numSub None x = None" "numAbs None = None" "\<And>k. numLe None k = False"
    by (simp_all add: strictEq_def numSub_def numAbs_def numLe_def split: option.splits)
  from assms show False
    unfolding isLegalMove_def Let_def nan
    by (simp add: eqs no split: if_splits)
qed

lemma findFirst_returns:
  assumes "\<And>x. x \<in> set xs \<Longrightarrow> \<exists>b. pred x = Some b"
  shows "\<exists>r. findFirst pred xs = Some r"
  using assms
proof (induction xs)
  case Nil
  then show ?case by simp
next
  case (Cons x xs)
  from Cons.prems [of x] obtain b where "pred x = Some b"
    by auto
  moreover from Cons have "\<exists>r. findFirst pred xs = Some r"
    by simp
  ultimately show ?case
    by auto
qed

lemma findFirst_found:
  assumes "findFirst pred xs = Some (Some x)"
  shows "x \<in> set xs \<and> pred x = Some True"
  using assms
  by (induction xs) (auto split: option.splits if_splits)

lemma set_forInKeys: "set (forInKeys position) = fst ` set position"
  by (auto simp: forInKeys_def Let_def)

lemma findPieceForMove_resolve:
  assumes "move \<noteq> ''O-O''" and "move \<noteq> ''O-O-O''"
    and "classifyMove (cleanMove move) whiteTurn = (piece, disambiguation, targetSquare)"
  shows "findPieceForMove position move whiteTurn =
     (if targetSquare = [] \<or> length targetSquare \<noteq> 2 then Some None
      else
        (case findFirst (\<lambda>square. isLegalMove square targetSquare piece position)
                (validSquares position piece disambiguation) of
           None \<Rightarrow> None
         | Some None \<Rightarrow> Some None
         | Some (Some legalSquare) \<Rightarrow>
             (if legalSquare \<noteq> [] then
                Some (Some \<lparr>moveFrom = legalSquare, moveTo = targetSquare,
                            movePiece = piece, secondaryMove = None\<rparr>)
              else Some None)))"
  using assms by (simp add: findPieceForMove_def)

lemma validSquares_hold_piece:
  assumes "square \<in> set (validSquares position piece disambiguation)"
  shows "square \<in> fst ` set position \<and> map_of position square = Some piece"
  using assms
  by (auto simp: validSquares_def candidateSquares_def set_forInKeys split: if_splits)

lemma findPieceForMove_returns:
  assumes "squareKeys position"
  shows "\<exists>r. findPieceForMove position move whiteTurn = Some r"
proof (cases "move = ''O-O'' \<or> move = ''O-O-O''")
  case True
  then show ?thesis
    by (auto simp: findPieceForMove_def)
next
  case False
  obtain piece disambiguation targetSquare
    where c: "classifyMove (cleanMove move) whiteTurn = (piece, disambiguation, targetSquare)"
    by (metis prod_cases3)
  note resolve = findPieceForMove_resolve [OF _ _ c, of position]
  show ?thesis
  proof (cases "targetSquare = [] \<or> length targetSquare \<noteq> 2")
    case True
    with False resolve show ?thesis
      by simp
  next
    case len: False
    have "\<exists>b. isLegalMove x targetSquare piece position = Some b"
      if "x \<in> set (validSquares position piece disambiguation)" for x
    proof -
      from validSquares_hold_piece [OF that]
      have "x \<in> fst ` set position" "map_of position x = Some piece"
        by simp_all
      moreover from this assms have "squareLike x"
        by (auto simp: squareKeys_def list_all_iff)
      ultimately show ?thesis
        using len by (intro isLegalMove_returns) auto
    qed
    from findFirst_returns [of "validSquares position piece disambiguation"
        "\<lambda>square. isLegalMove square targetSquare piece position", OF this]
    obtain r where "findFirst (\<lambda>square. isLegalMove square targetSquare piece position)
        (validSquares position piece disambiguation) = Some r"
      by blast
    with False len resolve show ?thesis
      by (auto split: option.splits)
  qed
qed

section \<open>Invariants of the sequencer loop\<close>

lemma squareLike_castling [simp]:
  "squareLike ''g1''" "squareLike ''f1''" "squareLike ''c1''" "squareLike ''d1''"
  "squareLike ''g8''" "squareLike ''f8''" "squareLike ''c8''" "squareLike ''d8''"
  by (simp_all add: squareLike_def isDigit_def)

lemma resolved_targets_squareLike:
  assumes "findPieceForMove position move whiteTurn = Some (Some md)"
  shows "squareLike (moveTo md)
         \<and> (case secondaryMove md of None \<Rightarrow> True | Some secondary \<Rightarrow> squareLike (moveTo secondary))"
proof (cases "move = ''O-O'' \<or> move = ''O-O-O''")
  case True
  with assms have "md = castlingMove move whiteTurn"
    by (simp add: findPieceForMove_def)
  then show ?thesis
    by (simp add: castlingMove_def Let_def)
next
  case False
  obtain piece disambiguation targetSquare
    where c: "classifyMove (cleanMove move) whiteTurn = (piece, disambiguation, targetSquare)"
    by (metis prod_cases3)
  from assms False findPieceForMove_resolve [OF _ _ c, of position]
  obtain legalSquare where len: "length targetSquare = 2"
    and found: "findFirst (\<lambda>square. isLegalMove square targetSquare piece position)
                  (validSquares position piece disambiguation) = Some (Some legalSquare)"
    and md: "md = \<lparr>moveFrom = legalSquare, moveTo = targetSquare, movePiece = piece, secondaryMove = None\<rparr>"
    by (auto split: if_splits option.splits)
  from findFirst_found [OF found] have "isLegalMove legalSquare targetSquare piece position = Some True"
    by simp
  from isLegalMove_true_has_rank [OF this] have "parseIntAt1 targetSquare \<noteq> None" .
  moreover from len obtain c d where "targetSquare = [c, d]"
    by (cases targetSquare; cases "tl targetSquare") auto
  ultimately have "squareLike targetSquare"
    by (auto simp: squareLike_def parseIntAt1_def parseIntChar_def split: if_splits)
  then show ?thesis
    by (simp add: md)
qed

lemma squareKeys_update:
  assumes "squareKeys position" and "squareLike k"
  shows "squareKeys (AList.update k v position)"
  using assms by (auto simp: squareKeys_def list_all_iff update_keys)

lemma squareKeys_delete:
  assumes "squareKeys position"
  shows "squareKeys (AList.delete k position)"
  using assms by (auto simp: squareKeys_def list_all_iff delete_keys)

lemma squareKeys_applyMove:
  assumes "squareKeys position" and "squareLike (moveTo md)"
    and "case secondaryMove md of None \<Rightarrow> True | Some secondary \<Rightarrow> squareLike (moveTo secondary)"
  shows "squareKeys (applyMove position md)"
  using assms
  by (auto simp: applyMove_def Let_def squareKeys_update squareKeys_delete split: option.splits)

lemma forEachMove_append:
  "forEachMove (xs @ ys) index st =
     (case forEachMove xs index st of
        None \<Rightarrow> None
      | Some st' \<Rightarrow> forEachMove ys (index + length xs) st')"
  by (induction xs arbitrary: index st) (auto simp: Let_def split: option.splits)

lemma forEachMove_returns:
  assumes "squareKeys (currentPos st)"
  shows "\<exists>st'. forEachMove moves index st = Some st' \<and> squareKeys (currentPos st')"
  using assms
proof (induction moves arbitrary: index st)
  case Nil
  then show ?case by simp
next
  case (Cons move moves)
  let ?std = "if isFrenchNotation move then convertMoveToStandard move else move"
  from findPieceForMove_returns [OF Cons.prems, of ?std "isWhiteTurn st"]
  obtain r where r: "findPieceForMove (currentPos st) ?std (isWhiteTurn st) = Some r"
    by blast
  show ?case
  proof (cases r)
    case None
    with r Cons show ?thesis
      by (simp add: Let_def)
  next
    case (Some moveInfo)
    from resolved_targets_squareLike [OF r [unfolded Some]] Cons.prems
    have "squareKeys (applyMove (currentPos st) moveInfo)"
      by (intro squareKeys_applyMove) simp_all
    with r Some Cons.IH show ?thesis
      by (simp add: Let_def)
  qed
qed

lemma forEachMove_grows:
  assumes "forEachMove moves index st = Some st'"
  shows "length (positionsAcc st') = length (positionsAcc st) + length moves
       \<and> take (length (positionsAcc st)) (positionsAcc st') = positionsAcc st
       \<and> take (length (moveDetailsAcc st)) (moveDetailsAcc st') = moveDetailsAcc st
       \<and> take (length (console st)) (console st') = console st
       \<and> length (moveDetailsAcc st') + length (console st')
           = length (moveDetailsAcc st) + length (console st) + length moves
       \<and> isWhiteTurn st' = (isWhiteTurn st = even (length moves))
       \<and> currentPos st' = (if moves = [] then currentPos st else last (positionsAcc st'))"
  using assms
proof (induction moves arbitrary: index st)
  case Nil
  then show ?case by simp
next
  case (Cons move moves)
  let ?std = "if isFrenchNotation move then convertMoveToStandard move else move"
  from Cons.prems obtain r where r: "findPieceForMove (currentPos st) ?std (isWhiteTurn st) = Some r"
    by (auto simp: Let_def split: option.splits)
  show ?case
  proof (cases r)
    case None
    let ?st1 = "st\<lparr>console := console st @ [InvalidMoveAtIndex index move ?std],
                    positionsAcc := positionsAcc st @ [currentPos st],
                    isWhiteTurn := \<not> isWhiteTurn st\<rparr>"
    from Cons.prems r None have "forEachMove moves (index + 1) ?st1 = Some st'"
      by (simp add: Let_def)
    from Cons.IH [OF this] show ?thesis
      by (auto simp: take_Suc_conv_app_nth dest: arg_cong [where f = "take (length (positionsAcc st))"]
                  arg_cong [where f = "take (length (console st))"])
  next
    case (Some moveInfo)
    let ?st1 = "st\<lparr>moveDetailsAcc := moveDetailsAcc st @ [moveInfo],
                    currentPos := applyMove (currentPos st) moveInfo,
                    positionsAcc := positionsAcc st @ [applyMove (currentPos st) moveInfo],
                    isWhiteTurn := \<not> isWhiteTurn st\<rparr>"
    from Cons.prems r Some have "forEachMove moves (index + 1) ?st1 = Some st'"
      by (simp add: Let_def)
    from Cons.IH [OF this] show ?thesis
      by (auto simp: take_Suc_conv_app_nth dest: arg_cong [where f = "take (length (positionsAcc st))"]
                  arg_cong [where f = "take (length (moveDetailsAcc st))"])
  qed
qed

section \<open>The keys of a decoded position\<close>

lemma coordsToAlgebraic_squareLike:
  assumes "0 \<le> rankIndex" and "rankIndex < 8"
  shows "squareLike (coordsToAlgebraic (Some rankIndex) fileIndex)"
proof -
  define k where "k = nat (8 - rankIndex)"
  from assms have k: "k < 10" "int k = 8 - rankIndex"
    by (simp_all add: k_def)
  have "numToString (numSub (Some 8) (Some rankIndex)) = [char_of (48 + k)]"
    using assms k by (simp add: numToString_def numSub_def k_def)
  moreover have "isDigit (char_of (48 + k))"
    using k(1) by (simp add: isDigit_def)
  ultimately show ?thesis
    by (simp add: coordsToAlgebraic_def squareLike_def)
qed

lemma parseRankChars_squareKeys:
  assumes "parseRankChars french rankIndex cs fileIndex position = Inr (fileIndex', position')"
    and "0 \<le> rankIndex" and "rankIndex < 8" and "squareKeys position"
  shows "squareKeys position'"
  using assms
proof (induction cs arbitrary: fileIndex position)
  case Nil
  then show ?case by simp
next
  case (Cons c cs)
  show ?case
  proof (cases "NumberOfChar c = None")
    case True
    with Cons.prems(1) obtain p
      where rest: "parseRankChars french rankIndex cs (numAdd fileIndex (Some 1))
                     (AList.update (coordsToAlgebraic (Some rankIndex) fileIndex) p position)
                   = Inr (fileIndex', position')"
      by (auto split: if_splits sum.splits)
    have "squareKeys (AList.update (coordsToAlgebraic (Some rankIndex) fileIndex) p position)"
      using Cons.prems(2-4) by (intro squareKeys_update coordsToAlgebraic_squareLike)
    from Cons.IH [OF rest Cons.prems(2,3) this] show ?thesis .
  next
    case False
    with Cons.prems(1)
    have rest: "parseRankChars french rankIndex cs (numAdd fileIndex (parseIntChar c)) position
                   = Inr (fileIndex', position')"
      by (auto simp: Let_def split: if_splits)
    from Cons.IH [OF rest Cons.prems(2-4)] show ?thesis .
  qed
qed

lemma parseRanks_squareKeys:
  assumes "parseRanks french rankIndex ranks position = Inr position'"
    and "0 \<le> rankIndex" and "rankIndex + int (length ranks) \<le> 8" and "squareKeys position"
  shows "squareKeys position'"
  using assms
proof (induction ranks arbitrary: rankIndex position)
  case Nil
  then show ?case by simp
next
  case (Cons rank ranks)
  from Cons.prems(1) obtain fileIndex position1
    where r: "parseRankChars french rankIndex rank (Some 0) position = Inr (fileIndex, position1)"
      and rest: "parseRanks french (rankIndex + 1) ranks position1 = Inr position'"
    by (auto simp: parseRank_def split: sum.splits if_splits)
  from Cons.prems(2,3) have "rankIndex < 8"
    by simp
  from parseRankChars_squareKeys [OF r Cons.prems(2) this Cons.prems(4)]
  have "squareKeys position1" .
  with Cons.IH [OF rest] Cons.prems(2,3) show ?case
    by simp
qed

lemma parsePosition_squareKeys:
  assumes "parsePosition boardPart = Inr position"
  shows "squareKeys position"
proof -
  from assms have "length (splitOn (CHR ''/'') boardPart) = 8"
    and "parseRanks (isFrenchFENNotation boardPart) 0 (splitOn (CHR ''/'') boardPart) [] = Inr position"
    by (auto simp: parsePosition_def Let_def split: if_splits)
  from parseRanks_squareKeys [OF this(2)] this(1) show ?thesis
    by (simp add: squareKeys_def)
qed

section \<open>What a resolved move guarantees\<close>

lemma classifyMove_colour:
  assumes "classifyMove token whiteTurn = (piece, disambiguation, targetSquare)"
  shows "isWhitePiece piece = whiteTurn"
  using assms
  by (auto simp: classifyMove_def pieceForLetter_def isWhitePiece_def Let_def
           split: list.splits if_splits)

text \<open>
  Claim C10. For a token other than \<open>O-O\<close> and \<open>O-O-O\<close>, when the resolver returns a
  move detail, the position holds exactly the returned piece on the returned origin square,
  the piece has the colour of the side to move, and \<open>isLegalMove\<close> holds for the returned
  origin, target and piece in that position.
\<close>

theorem resolved_move_is_legal_from_its_square:
  assumes "move \<noteq> ''O-O''" and "move \<noteq> ''O-O-O''"
    and "findPieceForMove position move whiteTurn = Some (Some md)"
  shows "map_of position (moveFrom md) = Some (movePiece md)
       \<and> isWhitePiece (movePiece md) = whiteTurn
       \<and> isLegalMove (moveFrom md) (moveTo md) (movePiece md) position = Some True"
proof -
  obtain piece disambiguation targetSquare
    where c: "classifyMove (cleanMove move) whiteTurn = (piece, disambiguation, targetSquare)"
    by (metis prod_cases3)
  from assms findPieceForMove_resolve [OF assms(1,2) c, of position]
  obtain legalSquare
    where found: "findFirst (\<lambda>square. isLegalMove square targetSquare piece position)
                    (validSquares position piece disambiguation) = Some (Some legalSquare)"
      and md: "md = \<lparr>moveFrom = legalSquare, moveTo = targetSquare, movePiece = piece,
                     secondaryMove = None\<rparr>"
    by (auto split: if_splits option.splits)
  from findFirst_found [OF found]
  have "legalSquare \<in> set (validSquares position piece disambiguation)"
    and "isLegalMove legalSquare targetSquare piece position = Some True"
    by simp_all
  with validSquares_hold_piece [of legalSquare position piece disambiguation]
    classifyMove_colour [OF c]
  show ?thesis
    by (simp add: md)
qed

theorem resolved_move_is_legal_from_its_square_witness:
  "findPieceForMove standardInitialPosition ''Nf3'' True =
     Some (Some \<lparr>moveFrom = ''g1'', moveTo = ''f3'', movePiece = WhiteKnight, secondaryMove = None\<rparr>)
   \<and> map_of standardInitialPosition ''g1'' = Some WhiteKnight
   \<and> isWhitePiece WhiteKnight
   \<and> isLegalMove ''g1'' ''f3'' WhiteKnight standardInitialPosition = Some True"
proof -
  have r: "findPieceForMove standardInitialPosition ''Nf3'' True =
     Some (Some \<lparr>moveFrom = ''g1'', moveTo = ''f3'', movePiece = WhiteKnight, secondaryMove = None\<rparr>)"
    by (simp add: standardInitialPosition_def js_defs move_defs Let_def)
  from resolved_move_is_legal_from_its_square [OF _ _ r] r show ?thesis
    by simp
qed

section \<open>Termination\<close>

lemma boardSquare_squareLike:
  assumes "boardSquare sq"
  shows "squareLike sq"
  using assms
  by (auto simp: boardSquare_def squareLike_def isDigit_def split: list.splits)

lemma squareLike_has_rank:
  assumes "squareLike sq"
  shows "parseIntAt1 sq \<noteq> None"
  using squareLike_coords [OF assms] by auto

lemma isPieceBetween_returns_on_board:
  assumes "boardSquare from" and "boardSquare to" and "onOneLine from to"
  shows "\<exists>b. isPieceBetween from to position = Some b"
proof -
  from squareLike_coords [OF boardSquare_squareLike [OF assms(1)]] obtain c d
    where f: "from = [c, d]" "isDigit d" "charCodeAt0 from = Some (of_char c)"
      "parseIntAt1 from = Some (digitVal d)"
    by blast
  from squareLike_coords [OF boardSquare_squareLike [OF assms(2)]] obtain c' d'
    where t: "to = [c', d']" "isDigit d'" "charCodeAt0 to = Some (of_char c')"
      "parseIntAt1 to = Some (digitVal d')"
    by blast
  from assms(3) have "of_char c = (of_char c' :: int) \<or> digitVal d = digitVal d'
      \<or> \<bar>of_char c' - (of_char c :: int)\<bar> = \<bar>digitVal d' - digitVal d\<bar>"
    by (auto simp: onOneLine_def f(1) t(1) digitVal_def)
  from isPieceBetween_returns_on_line [OF f(3) f(4) t(3) t(4) this] show ?thesis .
qed

text \<open>
  On \<open>a1\<close> and \<open>b3\<close>, which share no line, the loop of \<open>isPieceBetween\<close> walks the
  diagonal b2, c3, d4, ... and never meets the target: on the empty position it does not
  return.
\<close>

lemma pathLoop_off_line_diverges:
  assumes "pathLoop position toFile toRank fileStep rankStep currentFile currentRank = Some b"
  shows "\<not> (position = [] \<and> toFile = Some 1 \<and> toRank = Some 5 \<and> fileStep = 1 \<and> rankStep = - 1
            \<and> (\<exists>x y. currentFile = Some x \<and> currentRank = Some y \<and> x + y = 7))"
proof (rule pathLoop.raw_induct [rotated, where
      P = "\<lambda>position toFile toRank fileStep rankStep currentFile currentRank b.
             \<not> (position = [] \<and> toFile = Some 1 \<and> toRank = Some 5 \<and> fileStep = 1 \<and> rankStep = - 1
                \<and> (\<exists>x y. currentFile = Some x \<and> currentRank = Some y \<and> x + y = 7))", OF assms])
  fix f position toFile toRank fileStep rankStep currentFile currentRank b
  assume IH: "\<And>position toFile toRank fileStep rankStep currentFile currentRank b.
      f position toFile toRank fileStep rankStep currentFile currentRank = Some b \<Longrightarrow>
      \<not> (position = [] \<and> toFile = Some 1 \<and> toRank = Some 5 \<and> fileStep = 1 \<and> rankStep = - 1
         \<and> (\<exists>x y. currentFile = Some x \<and> currentRank = Some y \<and> x + y = 7))"
    and step: "(if strictNe currentFile toFile \<or> strictNe currentRank toRank then
        (if pieceAt position currentFile currentRank \<noteq> None then Some True
         else f position toFile toRank fileStep rankStep
                (numAdd currentFile (Some fileStep)) (numAdd currentRank (Some rankStep)))
      else Some False) = Some b"
  show "\<not> (position = [] \<and> toFile = Some 1 \<and> toRank = Some 5 \<and> fileStep = 1 \<and> rankStep = - 1
           \<and> (\<exists>x y. currentFile = Some x \<and> currentRank = Some y \<and> x + y = 7))"
  proof
    assume inv: "position = [] \<and> toFile = Some 1 \<and> toRank = Some 5 \<and> fileStep = 1 \<and> rankStep = - 1
           \<and> (\<exists>x y. currentFile = Some x \<and> currentRank = Some y \<and> x + y = 7)"
    then obtain x y where xy: "currentFile = Some x" "currentRank = Some y" "x + y = 7"
      by blast
    have "strictNe currentFile toFile \<or> strictNe currentRank toRank"
      using inv xy by (auto simp: strictNe_def strictEq_def)
    moreover have "pieceAt position currentFile currentRank = None"
      using inv by (simp add: pieceAt_def split: option.splits)
    ultimately have "f position toFile toRank fileStep rankStep
        (numAdd currentFile (Some fileStep)) (numAdd currentRank (Some rankStep)) = Some b"
      using step by simp
    from IH [OF this] show False
      using inv xy by (simp add: numAdd_def)
  qed
qed

text \<open>
  Claim C8, as stated: every operation terminates on all of its inputs, and
  \<open>isPieceBetween\<close> terminates for every pair of board squares, also pairs that share no
  file, rank or diagonal. Refuted on \<open>a1\<close>, \<open>b3\<close> and the empty position.
\<close>

theorem isPieceBetween_off_line_does_not_return:
  "boardSquare ''a1'' \<and> boardSquare ''b3'' \<and> isPieceBetween ''a1'' ''b3'' [] = None"
proof -
  have "pathLoop [] (Some 1) (Some 5) 1 (- 1) (Some 1) (Some 6) = None"
  proof (cases "pathLoop [] (Some 1) (Some 5) 1 (- 1) (Some 1) (Some 6)")
    case None
    then show ?thesis .
  next
    case (Some b)
    from pathLoop_off_line_diverges [OF this] show ?thesis
      by simp
  qed
  then show ?thesis
    by (simp add: isPieceBetween_def boardSquare_def js_defs Let_def)
qed

text \<open>
  Claim C8, amended. \<open>isPieceBetween\<close> returns for every pair of board squares that
  share a file, a rank or a diagonal, and every position; these are the only pairs on
  which \<open>isLegalMove\<close> calls it, so \<open>isLegalMove\<close> returns for every pair of board squares,
  every piece and every position. The resolver returns for every token, and the
  sequencer for every move list, on every position whose keys are square names; every
  position that \<open>parsePosition\<close> returns is one.
\<close>

theorem engine_operations_return:
  "(boardSquare from \<and> boardSquare to \<and> onOneLine from to
      \<longrightarrow> (\<exists>b. isPieceBetween from to position = Some b))
   \<and> (boardSquare from \<and> boardSquare to
      \<longrightarrow> (\<exists>b. isLegalMove from to piece position = Some b))
   \<and> (squareKeys position
      \<longrightarrow> (\<exists>r. findPieceForMove position move whiteTurn = Some r))
   \<and> (squareKeys position
      \<longrightarrow> (\<exists>r. generatePositions position moveList = Some r))
   \<and> (parsePosition boardPart = Inr decoded
      \<longrightarrow> squareKeys decoded \<and> (\<exists>r. generatePositions decoded moveList = Some r))"
proof (intro conjI impI)
  assume "boardSquare from \<and> boardSquare to \<and> onOneLine from to"
  then show "\<exists>b. isPieceBetween from to position = Some b"
    using isPieceBetween_returns_on_board by blast
next
  assume "boardSquare from \<and> boardSquare to"
  then have "squareLike from" "length to = 2" "parseIntAt1 to \<noteq> None"
    using boardSquare_squareLike squareLike_has_rank squareLike_coords by fastforce+
  then show "\<exists>b. isLegalMove from to piece position = Some b"
    by (intro isLegalMove_returns) simp_all
next
  assume "squareKeys position"
  then show "\<exists>r. findPieceForMove position move whiteTurn = Some r"
    by (rule findPieceForMove_returns)
next
  assume "squareKeys position"
  then have "squareKeys (currentPos (initialState position))"
    by (simp add: initialState_def)
  from forEachMove_returns [OF this, of moveList 0]
  show "\<exists>r. generatePositions position moveList = Some r"
    by (auto simp: generatePositions_def)
next
  assume "parsePosition boardPart = Inr decoded"
  then show "squareKeys decoded"
    by (rule parsePosition_squareKeys)
  then have "squareKeys (currentPos (initialState decoded))"
    by (simp add: initialState_def)
  from forEachMove_returns [OF this, of moveList 0]
  show "\<exists>r. generatePositions decoded moveList = Some r"
    by (auto simp: generatePositions_def)
qed

theorem engine_operations_return_witness:
  "boardSquare ''a1'' \<and> boardSquare ''h8'' \<and> onOneLine ''a1'' ''h8''
   \<and> squareKeys standardInitialPosition
   \<and> (\<exists>b. isPieceBetween ''a1'' ''h8'' standardInitialPosition = Some b)
   \<and> (\<exists>b. isLegalMove ''a1'' ''h8'' WhiteRook standardInitialPosition = Some b)
   \<and> (\<exists>r. findPieceForMove standardInitialPosition ''Ra3'' True = Some r)
   \<and> (\<exists>r. generatePositions standardInitialPosition [''Ra3'', ''zz'', ''e4''] = Some r)
   \<and> parsePosition ''rnbqkbnr/pppppppp/8/8/8/8/PPPPPPPP/RNBQKBNR'' = Inr standardInitialPosition"
proof -
  have h: "boardSquare ''a1''" "boardSquare ''h8''" "onOneLine ''a1'' ''h8''"
    "squareKeys standardInitialPosition"
    by (simp_all add: boardSquare_def onOneLine_def squareKeys_def squareLike_def
          standardInitialPosition_def isDigit_def)
  with engine_operations_return [of "''a1''" "''h8''" standardInitialPosition WhiteRook
      "''Ra3''" True "[''Ra3'', ''zz'', ''e4'']"
      "''rnbqkbnr/pppppppp/8/8/8/8/PPPPPPPP/RNBQKBNR''" standardInitialPosition]
    standard_initial_position_decodes
  show ?thesis
    by simp
qed

section \<open>The sequencer on every move list\<close>

lemma generatePositions_shape:
  assumes "forEachMove moveList 0 (initialState initialPos) = Some st"
  shows "generatePositions initialPos moveList =
           Some \<lparr>positions = positionsAcc st, moveDetails = moveDetailsAcc st, error = None\<rparr>
       \<and> generatePositionsConsole initialPos moveList = Some (console st)
       \<and> length (positionsAcc st) = length moveList
       \<and> length (moveDetailsAcc st) + length (console st) = length moveList"
  using assms forEachMove_grows [OF assms]
  by (simp add: generatePositions_def generatePositionsConsole_def initialState_def)

text \<open>
  Claim C9. On a position whose keys are square names \<open>generatePositions\<close> returns, and
  whenever it returns, the positions it returns are as many as the moves, whether the
  moves resolve or not: the check of the two lengths after the loop never fires and the
  field \<open>error\<close> of the result is undefined.
\<close>

theorem positions_are_as_many_as_moves:
  "(squareKeys initialPos \<longrightarrow> (\<exists>r. generatePositions initialPos moveList = Some r))
   \<and> (\<forall>r. generatePositions initialPos moveList = Some r
          \<longrightarrow> length (positions r) = length moveList \<and> error r = None)"
proof (intro conjI impI allI)
  assume "squareKeys initialPos"
  then have "squareKeys (currentPos (initialState initialPos))"
    by (simp add: initialState_def)
  from forEachMove_returns [OF this, of moveList 0]
  show "\<exists>r. generatePositions initialPos moveList = Some r"
    by (auto simp: generatePositions_def)
next
  fix r
  assume r: "generatePositions initialPos moveList = Some r"
  then obtain st where "forEachMove moveList 0 (initialState initialPos) = Some st"
    by (auto simp: generatePositions_def split: option.splits)
  from generatePositions_shape [OF this] r
  show "length (positions r) = length moveList" and "error r = None"
    by auto
qed

theorem positions_are_as_many_as_moves_witness:
  "squareKeys standardInitialPosition
   \<and> (\<exists>r. generatePositions standardInitialPosition [''e4'', ''Qh5'', ''Nf3''] = Some r
          \<and> length (moveDetails r) = 2
          \<and> length (positions r) = 3 \<and> error r = None)"
proof -
  have k: "squareKeys standardInitialPosition"
    by (simp add: squareKeys_def squareLike_def standardInitialPosition_def isDigit_def)
  have "\<exists>r. generatePositions standardInitialPosition [''e4'', ''Qh5'', ''Nf3''] = Some r
          \<and> length (moveDetails r) = 2"
    by (simp add: standardInitialPosition_def js_defs move_defs sequencer_defs Let_def)
  with k positions_are_as_many_as_moves [of standardInitialPosition "[''e4'', ''Qh5'', ''Nf3'']"]
  show ?thesis
    by auto
qed

text \<open>
  Claim C4, as stated: when the move of index \<open>i\<close> does not resolve, the sequencer goes
  on and the returned result reports which indices failed. Refuted: on the position
  decoded from \<open>8/8/8/8/8/8/8/5RK1\<close>, the move lists \<open>O-O zz zz\<close> (indices 1 and 2 fail)
  and \<open>zz zz O-O\<close> (indices 0 and 1 fail) return the same result, with \<open>error\<close> undefined;
  only the console lines differ.
\<close>

theorem result_does_not_tell_which_moves_failed:
  "parsePosition ''8/8/8/8/8/8/8/5RK1'' = Inr [(''f1'', WhiteRook), (''g1'', WhiteKing)]
   \<and> generatePositions [(''f1'', WhiteRook), (''g1'', WhiteKing)] [''O-O'', ''zz'', ''zz'']
       = generatePositions [(''f1'', WhiteRook), (''g1'', WhiteKing)] [''zz'', ''zz'', ''O-O'']
   \<and> (\<exists>r. generatePositions [(''f1'', WhiteRook), (''g1'', WhiteKing)] [''O-O'', ''zz'', ''zz'']
            = Some r \<and> error r = None)
   \<and> generatePositionsConsole [(''f1'', WhiteRook), (''g1'', WhiteKing)] [''O-O'', ''zz'', ''zz'']
       = Some [InvalidMoveAtIndex 1 ''zz'' ''zz'', InvalidMoveAtIndex 2 ''zz'' ''zz'']
   \<and> generatePositionsConsole [(''f1'', WhiteRook), (''g1'', WhiteKing)] [''zz'', ''zz'', ''O-O'']
       = Some [InvalidMoveAtIndex 0 ''zz'' ''zz'', InvalidMoveAtIndex 1 ''zz'' ''zz'']"
  by (simp add: js_defs parse_defs move_defs sequencer_defs Let_def)

lemma stateBefore_returns:
  assumes "squareKeys initialPos"
  shows "\<exists>s. stateBefore initialPos moveList i = Some s \<and> squareKeys (currentPos s)"
proof -
  from assms have "squareKeys (currentPos (initialState initialPos))"
    by (simp add: initialState_def)
  from forEachMove_returns [OF this, of "take i moveList" 0] show ?thesis
    by (simp add: stateBefore_def)
qed

lemma stateBefore_shape:
  assumes "stateBefore initialPos moveList i = Some s" and "i \<le> length moveList"
  shows "length (positionsAcc s) = i \<and> isWhiteTurn s = even i
       \<and> currentPos s = (if i = 0 then initialPos else last (positionsAcc s))"
  using forEachMove_grows [OF assms(1) [unfolded stateBefore_def]] assms(2)
  by (auto simp: initialState_def)

lemma stateBefore_continues:
  assumes "stateBefore initialPos moveList i = Some s" and "i \<le> length moveList"
  shows "forEachMove moveList 0 (initialState initialPos) = forEachMove (drop i moveList) i s"
proof -
  have "forEachMove (take i moveList @ drop i moveList) 0 (initialState initialPos)
          = forEachMove (drop i moveList) (0 + length (take i moveList)) s"
    using assms(1) by (simp only: forEachMove_append stateBefore_def option.case)
  then show ?thesis
    using assms(2) by simp
qed

lemma stateBefore_step:
  assumes "stateBefore initialPos moveList i = Some s" and "i < length moveList"
  shows "stateBefore initialPos moveList (Suc i) = forEachMove [moveList ! i] i s"
proof -
  have "forEachMove (take i moveList @ [moveList ! i]) 0 (initialState initialPos)
          = forEachMove [moveList ! i] (0 + length (take i moveList)) s"
    using assms(1) by (simp only: forEachMove_append stateBefore_def option.case)
  then show ?thesis
    using assms(2) by (simp add: stateBefore_def take_Suc_conv_app_nth)
qed

text \<open>
  Claim C4, amended. On a position whose keys are square names the sequencer returns
  for every move list. Before the move of index \<open>i\<close> the side to move is white exactly
  when \<open>i\<close> is even, whatever happened to the earlier moves, and the current position is
  the one returned for index \<open>i - 1\<close> (the initial one for \<open>i = 0\<close>). When that move does
  not resolve, the position returned for index \<open>i\<close> is this unchanged position, no move
  detail is recorded for it, and the console receives the warning naming the index
  \<open>i\<close>; the later moves are processed all the same, so the result has one position for
  each move and one move detail for each move without a warning.
\<close>

theorem unresolved_move_keeps_position_and_goes_on:
  assumes "squareKeys initialPos" and "i < length moveList"
  shows "\<exists>s s' r log.
           stateBefore initialPos moveList i = Some s
         \<and> stateBefore initialPos moveList (Suc i) = Some s'
         \<and> generatePositions initialPos moveList = Some r
         \<and> generatePositionsConsole initialPos moveList = Some log
         \<and> length (positions r) = length moveList
         \<and> length (moveDetails r) + length log = length moveList
         \<and> isWhiteTurn s = even i \<and> isWhiteTurn s' = even (Suc i)
         \<and> currentPos s = (if i = 0 then initialPos else positions r ! (i - 1))
         \<and> (findPieceForMove (currentPos s) (standardMoveOf (moveList ! i)) (isWhiteTurn s) = Some None
              \<longrightarrow> positions r ! i = currentPos s
                \<and> currentPos s' = currentPos s
                \<and> moveDetailsAcc s' = moveDetailsAcc s
                \<and> InvalidMoveAtIndex i (moveList ! i) (standardMoveOf (moveList ! i)) \<in> set log)"
proof -
  let ?init = "initialState initialPos"
  from stateBefore_returns [OF assms(1)] obtain s s'
    where s: "stateBefore initialPos moveList i = Some s"
      and s': "stateBefore initialPos moveList (Suc i) = Some s'"
    by blast
  from assms(1) have "squareKeys (currentPos ?init)"
    by (simp add: initialState_def)
  from forEachMove_returns [OF this, of moveList 0] obtain st
    where st: "forEachMove moveList 0 ?init = Some st"
    by blast
  note shape = generatePositions_shape [OF st]
  from assms(2) have le: "i \<le> length moveList" "Suc i \<le> length moveList"
    by simp_all
  note sb = stateBefore_shape [OF s le(1)]
  note sb' = stateBefore_shape [OF s' le(2)]
  have rest: "forEachMove (drop i moveList) i s = Some st"
    using stateBefore_continues [OF s le(1)] st by simp
  have rest': "forEachMove (drop (Suc i) moveList) (Suc i) s' = Some st"
    using stateBefore_continues [OF s' le(2)] st by simp
  have step: "forEachMove [moveList ! i] i s = Some s'"
    using stateBefore_step [OF s assms(2)] s' by simp
  have pre: "take i (positionsAcc st) = positionsAcc s"
    using forEachMove_grows [OF rest] sb by simp
  have pre': "take (Suc i) (positionsAcc st) = positionsAcc s'"
    using forEachMove_grows [OF rest'] sb' by simp
  have logpre: "take (length (console s')) (console st) = console s'"
    using forEachMove_grows [OF rest'] by simp
  have cur: "currentPos s = (if i = 0 then initialPos else positionsAcc st ! (i - 1))"
  proof (cases "i = 0")
    case True
    with sb show ?thesis by simp
  next
    case False
    with sb have "positionsAcc s \<noteq> []" "length (positionsAcc s) = i"
      by auto
    then have "last (positionsAcc s) = positionsAcc s ! (i - 1)"
      by (simp add: last_conv_nth)
    also have "\<dots> = take i (positionsAcc st) ! (i - 1)"
      by (simp only: pre)
    also have "\<dots> = positionsAcc st ! (i - 1)"
      using False by simp
    finally show ?thesis
      using False sb by simp
  qed
  have fails: "positionsAcc st ! i = currentPos s \<and> currentPos s' = currentPos s
      \<and> moveDetailsAcc s' = moveDetailsAcc s
      \<and> InvalidMoveAtIndex i (moveList ! i) (standardMoveOf (moveList ! i)) \<in> set (console st)"
    if f: "findPieceForMove (currentPos s) (standardMoveOf (moveList ! i)) (isWhiteTurn s) = Some None"
  proof -
    from step f have s'_eq:
      "s' = s\<lparr>console := console s @ [InvalidMoveAtIndex i (moveList ! i) (standardMoveOf (moveList ! i))],
              positionsAcc := positionsAcc s @ [currentPos s],
              isWhiteTurn := \<not> isWhiteTurn s\<rparr>"
      by (simp add: standardMoveOf_def Let_def)
    have "positionsAcc st ! i = take (Suc i) (positionsAcc st) ! i"
      by simp
    also have "\<dots> = positionsAcc s' ! i"
      by (simp only: pre')
    also have "\<dots> = currentPos s"
      using sb by (simp add: s'_eq nth_append)
    finally have "positionsAcc st ! i = currentPos s" .
    moreover have "InvalidMoveAtIndex i (moveList ! i) (standardMoveOf (moveList ! i)) \<in> set (console s')"
      by (simp add: s'_eq)
    then have "InvalidMoveAtIndex i (moveList ! i) (standardMoveOf (moveList ! i)) \<in> set (console st)"
      using logpre by (metis in_set_takeD)
    ultimately show ?thesis
      by (simp add: s'_eq)
  qed
  show ?thesis
    using s s' shape sb sb' cur fails by (intro exI [of _ s] exI [of _ s']) auto
qed

theorem unresolved_move_keeps_position_and_goes_on_witness:
  "squareKeys standardInitialPosition
   \<and> (\<exists>s s' r log.
         stateBefore standardInitialPosition [''e4'', ''Qh5'', ''Nf3''] 1 = Some s
       \<and> stateBefore standardInitialPosition [''e4'', ''Qh5'', ''Nf3''] 2 = Some s'
       \<and> generatePositions standardInitialPosition [''e4'', ''Qh5'', ''Nf3''] = Some r
       \<and> generatePositionsConsole standardInitialPosition [''e4'', ''Qh5'', ''Nf3''] = Some log
       \<and> findPieceForMove (currentPos s) ''Qh5'' (isWhiteTurn s) = Some None
       \<and> isWhiteTurn s = False \<and> isWhiteTurn s' = True
       \<and> length (positions r) = 3
       \<and> positions r ! 1 = positions r ! 0
       \<and> moveDetailsAcc s' = moveDetailsAcc s
       \<and> InvalidMoveAtIndex 1 ''Qh5'' ''Qh5'' \<in> set log)"
proof -
  have k: "squareKeys standardInitialPosition"
    by (simp add: squareKeys_def squareLike_def standardInitialPosition_def isDigit_def)
  from unresolved_move_keeps_position_and_goes_on [OF k, of 1 "[''e4'', ''Qh5'', ''Nf3'']"]
  obtain s s' r log
    where w: "stateBefore standardInitialPosition [''e4'', ''Qh5'', ''Nf3''] 1 = Some s"
      "stateBefore standardInitialPosition [''e4'', ''Qh5'', ''Nf3''] 2 = Some s'"
      "generatePositions standardInitialPosition [''e4'', ''Qh5'', ''Nf3''] = Some r"
      "generatePositionsConsole standardInitialPosition [''e4'', ''Qh5'', ''Nf3''] = Some log"
      "length (positions r) = 3"
      "isWhiteTurn s = False" "isWhiteTurn s' = True"
      "currentPos s = positions r ! 0"
      "findPieceForMove (currentPos s) (standardMoveOf ''Qh5'') (isWhiteTurn s) = Some None
         \<longrightarrow> positions r ! 1 = currentPos s
           \<and> currentPos s' = currentPos s
           \<and> moveDetailsAcc s' = moveDetailsAcc s
           \<and> InvalidMoveAtIndex 1 ''Qh5'' (standardMoveOf ''Qh5'') \<in> set log"
    by (auto simp: numeral_2_eq_2)
  have q: "standardMoveOf ''Qh5'' = ''Qh5''"
    by (simp add: standardMoveOf_def isFrenchNotation_def)
  have "stateBefore standardInitialPosition [''e4'', ''Qh5'', ''Nf3''] 1
          = forEachMove [''e4''] 0 (initialState standardInitialPosition)"
    by (simp add: stateBefore_def)
  also have "\<dots> = Some \<lparr>positionsAcc = [applyMove standardInitialPosition
                 \<lparr>moveFrom = ''e2'', moveTo = ''e4'', movePiece = WhitePawn, secondaryMove = None\<rparr>],
               moveDetailsAcc = [\<lparr>moveFrom = ''e2'', moveTo = ''e4'', movePiece = WhitePawn, secondaryMove = None\<rparr>],
               currentPos = applyMove standardInitialPosition
                 \<lparr>moveFrom = ''e2'', moveTo = ''e4'', movePiece = WhitePawn, secondaryMove = None\<rparr>,
               isWhiteTurn = False, console = []\<rparr>"
    by (simp add: standardInitialPosition_def js_defs move_defs initialState_def Let_def)
  finally have "findPieceForMove (currentPos s) ''Qh5'' (isWhiteTurn s) = Some None"
    using w(1) by (auto simp: standardInitialPosition_def js_defs move_defs applyMove_def Let_def)
  with w q k show ?thesis
    by (intro conjI exI [of _ s] exI [of _ s'] exI [of _ r] exI [of _ log]) auto
qed

section \<open>Detection of the French alphabet\<close>

lemma splitOn_not_Nil [simp]: "splitOn sep s \<noteq> []"
  by (induction s) (auto split: list.splits)

lemma hd_splitOn: "hd (splitOn sep s) = takeWhile (\<lambda>c. c \<noteq> sep) s"
  by (induction s) (auto split: list.splits)

lemma isFrenchFEN_board_part:
  "isFrenchFEN fen = list_ex (\<lambda>c. c \<in> set ''DdTtFfCc'') (takeWhile (\<lambda>c. c \<noteq> CHR '' '') fen)"
  using hd_splitOn [of "CHR '' ''" fen]
  by (cases "splitOn (CHR '' '') fen") (simp_all add: isFrenchFEN_def)

lemma isFrenchFENNotation_first_rank:
  "isFrenchFENNotation fen = list_ex (\<lambda>c. c \<in> set ''DTFCdtfc'') (takeWhile (\<lambda>c. c \<noteq> CHR ''/'') fen)"
  using hd_splitOn [of "CHR ''/''" fen]
  by (cases "splitOn (CHR ''/'') fen") (simp_all add: isFrenchFENNotation_def)

text \<open>
  Claim C2: the detector answers true exactly when one of the letters D, d, T, t, F, f,
  C, c occurs anywhere in the board section. \<open>isFrenchFEN\<close> does so; the detector of the
  parser, \<open>isFrenchFENNotation\<close>, reads the first rank only. On
  \<open>8/8/8/8/8/8/8/TCFDRFCT\<close> it answers false, and the section is refused.
\<close>

theorem isFrenchFENNotation_misses_later_ranks:
  "isFrenchFENNotation ''8/8/8/8/8/8/8/TCFDRFCT'' = False
   \<and> isFrenchFEN ''8/8/8/8/8/8/8/TCFDRFCT'' = True
   \<and> parsePosition ''8/8/8/8/8/8/8/TCFDRFCT'' = Inl (InvalidPieceCharacter (CHR ''T''))
   \<and> isValid (parseFEN ''8/8/8/8/8/8/8/TCFDRFCT w - - 0 1'') = False"
  by (simp add: isFrenchFEN_def js_defs parse_defs parseFEN_def fenPartsOf_def fenPartOf_def
        startsWithMoveNumber_def trim_def invalidFEN_def Let_def)

section \<open>French and standard board sections\<close>

lemma standardSwitch_letter:
  assumes "standardSwitch c = Inr p"
  shows "c = standardLetter p" and "toFrenchChar c = frenchLetter p"
  using assms
  by (auto simp: standardSwitch_def toFrenchChar_def allPieces_def convertPieceToFrench_def
           split: if_splits)

lemma standardSwitch_other:
  assumes "standardSwitch c = Inl e"
  shows "toFrenchChar c = c"
  using assms
  by (auto simp: standardSwitch_def toFrenchChar_def allPieces_def split: if_splits)

lemma frenchSwitch_frenchLetter:
  "isFrenchPiece (frenchLetter p) \<and> frenchSwitch (frenchLetter p) = Inr p
   \<and> NumberOfChar (frenchLetter p) = None"
  by (cases p) (simp_all add: isFrenchPiece_def allPieces_def frenchSwitch_def toUpperCase_def
                  NumberOfChar_def isDigit_def isWhiteSpace_def char_of_def bit_Suc_0_iff Let_def)

lemma standardLetter_not_number: "NumberOfChar (standardLetter p) = None"
  by (cases p) (simp_all add: NumberOfChar_def isDigit_def isWhiteSpace_def)

lemma toFrenchChar_number:
  assumes "NumberOfChar c \<noteq> None"
  shows "toFrenchChar c = c"
proof (cases "standardSwitch c")
  case (Inl e)
  then show ?thesis
    by (rule standardSwitch_other)
next
  case (Inr p)
  with standardSwitch_letter(1) [OF Inr] standardLetter_not_number [of p] assms show ?thesis
    by simp
qed

lemma toFrenchChar_slash: "(toFrenchChar c = CHR ''/'') = (c = CHR ''/'')"
proof (cases "standardSwitch c")
  case (Inl e)
  then show ?thesis
    by (simp add: standardSwitch_other)
next
  case (Inr p)
  note c = standardSwitch_letter(1) [OF Inr] and t = standardSwitch_letter(2) [OF Inr]
  have "(frenchLetter p = CHR ''/'') = (standardLetter p = CHR ''/'')"
    by (cases p) simp_all
  then show ?thesis
    by (simp only: t) (simp only: c)
qed

lemma splitOn_toFrench:
  "splitOn (CHR ''/'') (map toFrenchChar s) = map (map toFrenchChar) (splitOn (CHR ''/'') s)"
  by (induction s) (auto simp: toFrenchChar_slash split: list.splits)

lemma parseRankChars_toFrench:
  assumes "parseRankChars False rankIndex cs fileIndex position = Inr result"
  shows "parseRankChars True rankIndex (map toFrenchChar cs) fileIndex position = Inr result"
  using assms
proof (induction cs arbitrary: fileIndex position)
  case Nil
  then show ?case by simp
next
  case (Cons c cs)
  show ?case
  proof (cases "NumberOfChar c = None")
    case True
    with Cons.prems obtain p where p: "standardSwitch c = Inr p" and ge: "\<not> numGe fileIndex 8"
      and rest: "parseRankChars False rankIndex cs (numAdd fileIndex (Some 1))
                   (AList.update (coordsToAlgebraic (Some rankIndex) fileIndex) p position) = Inr result"
      by (auto simp: pieceOfChar_def split: if_splits sum.splits)
    note t = standardSwitch_letter(2) [OF p]
    have "NumberOfChar (toFrenchChar c) = None" "pieceOfChar True (toFrenchChar c) = Inr p"
      by (simp_all add: pieceOfChar_def t frenchSwitch_frenchLetter)
    with ge Cons.IH [OF rest] show ?thesis
      by simp
  next
    case False
    with Cons.prems have gt: "\<not> numGt (numAdd fileIndex (parseIntChar c)) 8"
      and rest: "parseRankChars False rankIndex cs (numAdd fileIndex (parseIntChar c)) position = Inr result"
      by (auto simp: Let_def split: if_splits)
    from toFrenchChar_number [OF False] False gt Cons.IH [OF rest] show ?thesis
      by (auto simp: Let_def)
  qed
qed

lemma parseRanks_toFrench:
  assumes "parseRanks False rankIndex ranks position = Inr result"
  shows "parseRanks True rankIndex (map (map toFrenchChar) ranks) position = Inr result"
  using assms
proof (induction ranks arbitrary: rankIndex position)
  case Nil
  then show ?case by simp
next
  case (Cons rank ranks)
  from Cons.prems obtain fileIndex position'
    where r: "parseRankChars False rankIndex rank (Some 0) position = Inr (fileIndex, position')"
      and eight: "strictEq fileIndex (Some 8)"
      and rest: "parseRanks False (rankIndex + 1) ranks position' = Inr result"
    by (auto simp: parseRank_def split: sum.splits if_splits)
  from parseRankChars_toFrench [OF r] eight Cons.IH [OF rest] show ?case
    by (simp add: parseRank_def)
qed

section \<open>When decoding fails\<close>

lemma standardSwitch_succeeds_iff:
  "(\<exists>p. standardSwitch c = Inr p) = isStandardPiece c"
  by (simp add: standardSwitch_def isStandardPiece_def allPieces_def)

lemma frenchSwitch_succeeds:
  assumes "isFrenchPiece c"
  shows "\<exists>p. frenchSwitch c = Inr p"
proof -
  from assms obtain p where "c = frenchLetter p"
    by (auto simp: isFrenchPiece_def)
  with frenchSwitch_frenchLetter [of p] show ?thesis
    by auto
qed

lemma pieceOfChar_recognised:
  "(\<exists>p. pieceOfChar french c = Inr p) = recognisedLetter french c"
proof (cases "french \<and> isFrenchPiece c")
  case True
  with frenchSwitch_succeeds [of c] show ?thesis
    by (simp add: pieceOfChar_def recognisedLetter_def)
next
  case False
  with standardSwitch_succeeds_iff [of c] show ?thesis
    by (auto simp: pieceOfChar_def recognisedLetter_def)
qed

lemma recognised_not_number:
  assumes "recognisedLetter french c"
  shows "NumberOfChar c = None \<and> \<not> isDigit c"
proof -
  from assms obtain p where "c = standardLetter p \<or> c = frenchLetter p"
    by (auto simp: recognisedLetter_def isStandardPiece_def isFrenchPiece_def)
  with standardLetter_not_number [of p] frenchSwitch_frenchLetter [of p]
  have "NumberOfChar c = None"
    by auto
  then show ?thesis
    by (auto simp: NumberOfChar_def split: if_splits)
qed

lemma digit_number:
  assumes "isDigit c"
  shows "NumberOfChar c = Some (digitVal c) \<and> parseIntChar c = Some (digitVal c) \<and> 0 \<le> digitVal c"
  using assms by (simp add: NumberOfChar_def parseIntChar_def isDigit_def digitVal_def int_of_char)

lemma fileWidth_nonneg:
  "0 \<le> sum_list (map fileWidth cs)"
  by (induction cs) (auto simp: fileWidth_def isDigit_def digitVal_def int_of_char)

lemma parseRankChars_NaN:
  assumes "parseRankChars french rankIndex cs None position = Inr (fileIndex, position')"
  shows "fileIndex = None"
  using assms
  by (induction cs arbitrary: position)
     (auto simp: numAdd_def numGe_def numGt_def Let_def split: if_splits sum.splits)

lemma parseRankChars_sound:
  assumes "parseRankChars french rankIndex cs (Some n) position = Inr (Some m, position')"
  shows "list_all (\<lambda>c. isDigit c \<or> recognisedLetter french c) cs
       \<and> m = n + sum_list (map fileWidth cs)"
  using assms
proof (induction cs arbitrary: n position)
  case Nil
  then show ?case by simp
next
  case (Cons c cs)
  show ?case
  proof (cases "NumberOfChar c = None")
    case True
    with Cons.prems obtain p where p: "pieceOfChar french c = Inr p"
      and rest: "parseRankChars french rankIndex cs (Some (n + 1))
                   (AList.update (coordsToAlgebraic (Some rankIndex) (Some n)) p position)
                 = Inr (Some m, position')"
      by (auto simp: numAdd_def split: if_splits sum.splits)
    from p have r: "recognisedLetter french c"
      using pieceOfChar_recognised by blast
    from recognised_not_number [OF r] have "fileWidth c = 1"
      by (simp add: fileWidth_def)
    with r Cons.IH [OF rest] show ?thesis
      by simp
  next
    case False
    show ?thesis
    proof (cases "isDigit c")
      case True
      from digit_number [OF True] Cons.prems False
      have rest: "parseRankChars french rankIndex cs (Some (n + digitVal c)) position
                 = Inr (Some m, position')"
        by (auto simp: numAdd_def Let_def split: if_splits)
      from True Cons.IH [OF rest] show ?thesis
        by (simp add: fileWidth_def)
    next
      case notDigit: False
      then have "parseIntChar c = None"
        by (simp add: parseIntChar_def)
      with Cons.prems False
      have "parseRankChars french rankIndex cs None position = Inr (Some m, position')"
        by (auto simp: numAdd_def numGt_def Let_def split: if_splits)
      from parseRankChars_NaN [OF this] show ?thesis
        by simp
    qed
  qed
qed

lemma parseRankChars_complete:
  assumes "list_all (\<lambda>c. isDigit c \<or> recognisedLetter french c) cs"
    and "n + sum_list (map fileWidth cs) \<le> 8"
  shows "\<exists>position'. parseRankChars french rankIndex cs (Some n) position
           = Inr (Some (n + sum_list (map fileWidth cs)), position')"
  using assms
proof (induction cs arbitrary: n position)
  case Nil
  then show ?case by simp
next
  case (Cons c cs)
  note tail = fileWidth_nonneg [of cs]
  show ?case
  proof (cases "isDigit c")
    case True
    from digit_number [OF True] have d: "NumberOfChar c = Some (digitVal c)"
      "parseIntChar c = Some (digitVal c)" "0 \<le> digitVal c"
      by simp_all
    have w: "fileWidth c = digitVal c"
      using True by (simp add: fileWidth_def)
    from Cons.prems(2) d(3) tail have le: "n + digitVal c \<le> 8"
      and "n + digitVal c + sum_list (map fileWidth cs) \<le> 8"
      by (simp_all add: w)
    with Cons.IH [of "n + digitVal c" position] Cons.prems(1)
    obtain position' where "parseRankChars french rankIndex cs (Some (n + digitVal c)) position
        = Inr (Some (n + digitVal c + sum_list (map fileWidth cs)), position')"
      by auto
    with d le show ?thesis
      by (simp add: numAdd_def numGt_def w Let_def add.assoc)
  next
    case False
    with Cons.prems(1) have r: "recognisedLetter french c"
      by simp
    from r obtain p where p: "pieceOfChar french c = Inr p"
      using pieceOfChar_recognised by blast
    from recognised_not_number [OF r] have nn: "NumberOfChar c = None"
      by simp
    have w: "fileWidth c = 1"
      using False by (simp add: fileWidth_def)
    from Cons.prems(2) tail have lt: "n < 8" and "n + 1 + sum_list (map fileWidth cs) \<le> 8"
      by (simp_all add: w)
    with Cons.IH [of "n + 1" "AList.update (coordsToAlgebraic (Some rankIndex) (Some n)) p position"]
      Cons.prems(1)
    obtain position' where "parseRankChars french rankIndex cs (Some (n + 1))
        (AList.update (coordsToAlgebraic (Some rankIndex) (Some n)) p position)
        = Inr (Some (n + 1 + sum_list (map fileWidth cs)), position')"
      by auto
    with p nn lt show ?thesis
      by (simp add: numAdd_def numGe_def w add.assoc)
  qed
qed

lemma parseRank_succeeds_iff:
  "(\<exists>position'. parseRank french rankIndex rank position = Inr position')
     = wellFormedRank french rank"
proof
  assume "\<exists>position'. parseRank french rankIndex rank position = Inr position'"
  then obtain position' fileIndex
    where "parseRankChars french rankIndex rank (Some 0) position = Inr (fileIndex, position')"
      and "strictEq fileIndex (Some 8)"
    by (auto simp: parseRank_def split: sum.splits if_splits)
  then have "parseRankChars french rankIndex rank (Some 0) position = Inr (Some 8, position')"
    by (auto simp: strictEq_def split: option.splits)
  from parseRankChars_sound [OF this] show "wellFormedRank french rank"
    by (simp add: wellFormedRank_def)
next
  assume "wellFormedRank french rank"
  then have "list_all (\<lambda>c. isDigit c \<or> recognisedLetter french c) rank"
    and "0 + sum_list (map fileWidth rank) \<le> 8" and s: "sum_list (map fileWidth rank) = 8"
    by (simp_all add: wellFormedRank_def)
  from parseRankChars_complete [OF this(1,2), of rankIndex position] s
  show "\<exists>position'. parseRank french rankIndex rank position = Inr position'"
    by (auto simp: parseRank_def strictEq_def)
qed

lemma parseRanks_succeeds_iff:
  "(\<exists>position'. parseRanks french rankIndex ranks position = Inr position')
     = list_all (wellFormedRank french) ranks"
proof (induction ranks arbitrary: rankIndex position)
  case Nil
  then show ?case by simp
next
  case (Cons rank ranks)
  show ?case
  proof (cases "parseRank french rankIndex rank position")
    case (Inl e)
    with parseRank_succeeds_iff [of french rankIndex rank position] show ?thesis
      by auto
  next
    case (Inr position1)
    with parseRank_succeeds_iff [of french rankIndex rank position]
      Cons.IH [of "rankIndex + 1" position1] show ?thesis
      by auto
  qed
qed

lemma parsePosition_succeeds_iff:
  "(\<exists>position. parsePosition boardPart = Inr position) = wellFormedBoard boardPart"
  using parseRanks_succeeds_iff
          [of "isFrenchFENNotation boardPart" 0 "splitOn (CHR ''/'') boardPart" "[]"]
  by (auto simp: parsePosition_def wellFormedBoard_def Let_def)

text \<open>
  Claim C5, as stated: decoding fails exactly when the ranks are not 8, or a rank does
  not sum to 8 files, or a character is neither a digit 1 to 8 nor a recognised piece
  letter. Refuted on a section with the digit 0, which is not one of 1 to 8 and adds no
  file: the section decodes, to the standard initial position, and \<open>parseFEN\<close> reports a
  valid record.
\<close>

theorem digit_zero_is_accepted:
  "parsePosition ''rnbqkbnr/pppppppp/8/8/8/8/PPPPPPPP/RNBQ0KBNR'' = Inr standardInitialPosition
   \<and> isValid (parseFEN ''rnbqkbnr/pppppppp/8/8/8/8/PPPPPPPP/RNBQ0KBNR w KQkq - 0 1'')"
proof -
  have p: "parsePosition ''rnbqkbnr/pppppppp/8/8/8/8/PPPPPPPP/RNBQ0KBNR'' = Inr standardInitialPosition"
    by (simp add: standardInitialPosition_def js_defs parse_defs)
  have "fenPartsOf ''rnbqkbnr/pppppppp/8/8/8/8/PPPPPPPP/RNBQ0KBNR w KQkq - 0 1''
          = [''rnbqkbnr/pppppppp/8/8/8/8/PPPPPPPP/RNBQ0KBNR'', ''w'', ''KQkq'', ''-'', ''0'', ''1'']"
    by (simp add: fenPartsOf_def fenPartOf_def startsWithMoveNumber_def trim_def isDigit_def
          isWhiteSpace_def)
  with p show ?thesis
    by (simp add: parseFEN_def Let_def)
qed

text \<open>
  Claim C5, amended. Decoding a board section fails exactly when the section is not
  well formed, that is when it does not split into exactly 8 ranks at the slashes, or
  some character is neither a decimal digit nor a piece letter recognised in the
  alphabet that the detector has selected for the section, or the digits (each counted
  with its value, 0 included) and the piece letters of some rank do not sum to exactly 8
  files; every well-formed section decodes to a position. \<open>parseFEN\<close> reports the record
  valid exactly when it has at least 4 fields and its board section is well formed, and
  an invalid result carries the error and the empty position, never a part of one.
\<close>

theorem decoding_fails_iff_malformed:
  "((\<exists>position. parsePosition boardPart = Inr position) = wellFormedBoard boardPart)
   \<and> ((\<exists>e. parsePosition boardPart = Inl e) = (\<not> wellFormedBoard boardPart))
   \<and> (isValid (parseFEN fenString)
        = (4 \<le> length (fenPartsOf fenString) \<and> wellFormedBoard (fenPartsOf fenString ! 0)))
   \<and> (isValid (parseFEN fenString) \<or>
        (parseError (parseFEN fenString) \<noteq> None
         \<and> fenPosition (fenStructure (parseFEN fenString)) = []))"
proof (intro conjI)
  show ok: "(\<exists>position. parsePosition boardPart = Inr position) = wellFormedBoard boardPart"
    by (rule parsePosition_succeeds_iff)
  then show "(\<exists>e. parsePosition boardPart = Inl e) = (\<not> wellFormedBoard boardPart)"
    by (cases "parsePosition boardPart") auto
  show "isValid (parseFEN fenString)
        = (4 \<le> length (fenPartsOf fenString) \<and> wellFormedBoard (fenPartsOf fenString ! 0))"
    using parsePosition_succeeds_iff [of "fenPartsOf fenString ! 0"]
    by (cases "parsePosition (fenPartsOf fenString ! 0)")
       (auto simp: parseFEN_def invalidFEN_def Let_def)
  show "isValid (parseFEN fenString) \<or>
        (parseError (parseFEN fenString) \<noteq> None
         \<and> fenPosition (fenStructure (parseFEN fenString)) = [])"
    by (cases "parsePosition (fenPartsOf fenString ! 0)")
       (auto simp: parseFEN_def invalidFEN_def Let_def)
qed

theorem decoding_fails_iff_malformed_witness:
  "wellFormedBoard ''rnbqkbnr/pppppppp/8/8/8/8/PPPPPPPP/RNBQKBNR''
   \<and> (\<exists>position. parsePosition ''rnbqkbnr/pppppppp/8/8/8/8/PPPPPPPP/RNBQKBNR'' = Inr position)
   \<and> \<not> wellFormedBoard ''rnbqkbnr/pppppppp/8/8/8/8/PPPPPPP/RNBQKBNR''
   \<and> (\<exists>e. parsePosition ''rnbqkbnr/pppppppp/8/8/8/8/PPPPPPP/RNBQKBNR'' = Inl e)
   \<and> \<not> isValid (parseFEN ''invalid/fen/string'')
   \<and> parseError (parseFEN ''invalid/fen/string'') \<noteq> None"
proof -
  have w: "wellFormedBoard ''rnbqkbnr/pppppppp/8/8/8/8/PPPPPPPP/RNBQKBNR''"
    "\<not> wellFormedBoard ''rnbqkbnr/pppppppp/8/8/8/8/PPPPPPP/RNBQKBNR''"
    by (simp_all add: wellFormedBoard_def wellFormedRank_def recognisedLetter_def
          isStandardPiece_def allPieces_def fileWidth_def isDigit_def digitVal_def
          isFrenchFENNotation_def)
  have f: "fenPartsOf ''invalid/fen/string'' = [''invalid/fen/string'']"
    by (simp add: fenPartsOf_def fenPartOf_def startsWithMoveNumber_def trim_def isDigit_def
          isWhiteSpace_def)
  from decoding_fails_iff_malformed
         [of "''rnbqkbnr/pppppppp/8/8/8/8/PPPPPPPP/RNBQKBNR''" "''invalid/fen/string''"]
       decoding_fails_iff_malformed
         [of "''rnbqkbnr/pppppppp/8/8/8/8/PPPPPPP/RNBQKBNR''" "''invalid/fen/string''"]
       w f
  show ?thesis
    by simp
qed

section \<open>French sections and their standard form\<close>

lemma in_splitOn:
  assumes "c \<in> set s"
  shows "c = sep \<or> (\<exists>t \<in> set (splitOn sep s). c \<in> set t)"
  using assms
proof (induction s)
  case Nil
  then show ?case by simp
next
  case (Cons d s)
  obtain t ts where t: "splitOn sep s = t # ts"
    by (cases "splitOn sep s") simp_all
  show ?case
  proof (cases "c = d")
    case True
    with t show ?thesis
      by auto
  next
    case False
    with Cons have "c = sep \<or> (\<exists>u \<in> set (splitOn sep s). c \<in> set u)"
      by simp
    with t show ?thesis
      by auto
  qed
qed

lemma decodable_standard_chars:
  assumes "\<not> isFrenchFENNotation boardPart" and "parsePosition boardPart = Inr position"
    and "c \<in> set boardPart"
  shows "standardAlphabetChar c"
proof -
  from assms(2) have "wellFormedBoard boardPart"
    using parsePosition_succeeds_iff by blast
  with assms(1) have "list_all (wellFormedRank False) (splitOn (CHR ''/'') boardPart)"
    by (simp add: wellFormedBoard_def)
  with in_splitOn [OF assms(3), of "CHR ''/''"] show ?thesis
    by (auto simp: standardAlphabetChar_def list_all_iff wellFormedRank_def recognisedLetter_def)
qed

lemma toStandardChar_frenchLetter: "toStandardChar (frenchLetter p) = standardLetter p"
  by (cases p) (simp_all add: toStandardChar_def)

lemma toStandardChar_other:
  assumes "c = CHR ''/'' \<or> isDigit c"
  shows "toStandardChar c = c"
proof -
  from assms have "c \<notin> set ''RrDdTtFfCc''"
    by (auto simp: isDigit_def)
  then show ?thesis
    by (simp add: toStandardChar_def)
qed

lemma toStandardChar_toFrenchChar:
  assumes "standardAlphabetChar c"
  shows "toStandardChar (toFrenchChar c) = c"
proof (cases "standardSwitch c")
  case (Inr p)
  from standardSwitch_letter [OF Inr] toStandardChar_frenchLetter [of p] show ?thesis
    by simp
next
  case (Inl e)
  then have "\<not> isStandardPiece c"
    using standardSwitch_succeeds_iff [of c] by auto
  with assms have "c = CHR ''/'' \<or> isDigit c"
    by (simp add: standardAlphabetChar_def)
  from toStandardChar_other [OF this] standardSwitch_other [OF Inl] show ?thesis
    by simp
qed

lemma replaceAll_chain:
  "replaceAll (CHR ''c'') (CHR ''n'') (replaceAll (CHR ''C'') (CHR ''N'')
   (replaceAll (CHR ''f'') (CHR ''b'') (replaceAll (CHR ''F'') (CHR ''B'')
   (replaceAll (CHR ''t'') (CHR ''r'') (replaceAll (CHR ''T'') (CHR ''R'')
   (replaceAll (CHR ''d'') (CHR ''q'') (replaceAll (CHR ''D'') (CHR ''Q'')
   (replaceAll (CHR ''r'') (CHR ''k'') (replaceAll (CHR ''R'') (CHR ''K'') s)))))))))
   = map toStandardChar s"
  by (induction s) (simp_all add: replaceAll_def toStandardChar_def)

lemma frenchToStandardFEN_toFrench:
  assumes "\<not> isFrenchFENNotation boardPart" and "parsePosition boardPart = Inr position"
    and "isFrenchFEN (map toFrenchChar boardPart)"
  shows "frenchToStandardFEN (map toFrenchChar boardPart) = boardPart"
proof -
  have "map toStandardChar (map toFrenchChar boardPart) = boardPart"
    using decodable_standard_chars [OF assms(1,2)]
    by (simp add: toStandardChar_toFrenchChar map_idI)
  with assms(3) show ?thesis
    by (simp add: frenchToStandardFEN_def replaceAll_chain del: map_map)
qed

text \<open>
  Claim C3, as stated: for every position, the French board section decodes to the same
  mapping as the standard one. Refuted on the position with the two kings on e1 and e8:
  its French section \<open>4r3/8/8/8/8/8/8/4R3\<close> holds none of the letters that only the French
  alphabet has, is read in the standard alphabet, and decodes to two rooks;
  \<open>frenchToStandardFEN\<close> leaves it as it is, too.
\<close>

theorem french_kings_decode_as_rooks:
  "map toFrenchChar ''4k3/8/8/8/8/8/8/4K3'' = ''4r3/8/8/8/8/8/8/4R3''
   \<and> parsePosition ''4k3/8/8/8/8/8/8/4K3'' = Inr [(''e8'', BlackKing), (''e1'', WhiteKing)]
   \<and> parsePosition ''4r3/8/8/8/8/8/8/4R3'' = Inr [(''e8'', BlackRook), (''e1'', WhiteRook)]
   \<and> frenchToStandardFEN ''4r3/8/8/8/8/8/8/4R3'' = ''4r3/8/8/8/8/8/8/4R3''"
  by (simp add: toFrenchChar_def convertPieceToFrench_def js_defs parse_defs
        frenchToStandardFEN_def isFrenchFEN_def)

text \<open>
  Claim C3, amended. For every board section in the standard alphabet that decodes to a
  position, if the parser's detector classifies its French transliteration as French,
  then the transliteration decodes to the same position; and if \<open>isFrenchFEN\<close>
  classifies it as French, \<open>frenchToStandardFEN\<close> turns it back into the standard
  section. In particular the French initial-position string
  \<open>tcfdrfct/pppppppp/8/8/8/8/PPPPPPPP/TCFDRFCT\<close> decodes to the position of
  \<open>rnbqkbnr/pppppppp/8/8/8/8/PPPPPPPP/RNBQKBNR\<close>, whose 32 entries are those of the
  table of the tests.
\<close>

theorem french_section_decodes_like_standard:
  "(\<not> isFrenchFENNotation boardPart \<and> parsePosition boardPart = Inr position
      \<and> isFrenchFENNotation (map toFrenchChar boardPart)
      \<longrightarrow> parsePosition (map toFrenchChar boardPart) = Inr position)
   \<and> (\<not> isFrenchFENNotation boardPart \<and> parsePosition boardPart = Inr position
      \<and> isFrenchFEN (map toFrenchChar boardPart)
      \<longrightarrow> frenchToStandardFEN (map toFrenchChar boardPart) = boardPart)
   \<and> parsePosition ''tcfdrfct/pppppppp/8/8/8/8/PPPPPPPP/TCFDRFCT''
       = parsePosition ''rnbqkbnr/pppppppp/8/8/8/8/PPPPPPPP/RNBQKBNR''
   \<and> parsePosition ''rnbqkbnr/pppppppp/8/8/8/8/PPPPPPPP/RNBQKBNR'' = Inr standardInitialPosition
   \<and> length standardInitialPosition = 32
   \<and> distinct (map fst standardInitialPosition)
   \<and> list_all (\<lambda>(square, piece). map_of standardInitialPosition square = Some piece)
        expectedStandardPositions"
proof (intro conjI impI)
  assume a: "\<not> isFrenchFENNotation boardPart \<and> parsePosition boardPart = Inr position
      \<and> isFrenchFENNotation (map toFrenchChar boardPart)"
  then have "length (splitOn (CHR ''/'') boardPart) = 8"
    and "parseRanks False 0 (splitOn (CHR ''/'') boardPart) [] = Inr position"
    by (auto simp: parsePosition_def Let_def split: if_splits)
  with parseRanks_toFrench [of 0 "splitOn (CHR ''/'') boardPart" "[]" position] a
  show "parsePosition (map toFrenchChar boardPart) = Inr position"
    by (simp add: parsePosition_def splitOn_toFrench)
next
  assume "\<not> isFrenchFENNotation boardPart \<and> parsePosition boardPart = Inr position
      \<and> isFrenchFEN (map toFrenchChar boardPart)"
  then show "frenchToStandardFEN (map toFrenchChar boardPart) = boardPart"
    using frenchToStandardFEN_toFrench by blast
next
  show "parsePosition ''tcfdrfct/pppppppp/8/8/8/8/PPPPPPPP/TCFDRFCT''
       = parsePosition ''rnbqkbnr/pppppppp/8/8/8/8/PPPPPPPP/RNBQKBNR''"
    by (simp add: js_defs parse_defs)
next
  show "parsePosition ''rnbqkbnr/pppppppp/8/8/8/8/PPPPPPPP/RNBQKBNR'' = Inr standardInitialPosition"
    by (rule standard_initial_position_decodes)
next
  show "length standardInitialPosition = 32"
    by (simp add: standardInitialPosition_def)
next
  show "distinct (map fst standardInitialPosition)"
    by (simp add: standardInitialPosition_def)
next
  show "list_all (\<lambda>(square, piece). map_of standardInitialPosition square = Some piece)
        expectedStandardPositions"
    by (simp add: standardInitialPosition_def expectedStandardPositions_def)
qed

theorem french_section_decodes_like_standard_witness:
  "\<not> isFrenchFENNotation ''rnbqkbnr/pppppppp/8/8/8/8/PPPPPPPP/RNBQKBNR''
   \<and> map toFrenchChar ''rnbqkbnr/pppppppp/8/8/8/8/PPPPPPPP/RNBQKBNR''
       = ''tcfdrfct/pppppppp/8/8/8/8/PPPPPPPP/TCFDRFCT''
   \<and> isFrenchFENNotation ''tcfdrfct/pppppppp/8/8/8/8/PPPPPPPP/TCFDRFCT''
   \<and> isFrenchFEN ''tcfdrfct/pppppppp/8/8/8/8/PPPPPPPP/TCFDRFCT''
   \<and> parsePosition ''rnbqkbnr/pppppppp/8/8/8/8/PPPPPPPP/RNBQKBNR'' = Inr standardInitialPosition
   \<and> parsePosition ''tcfdrfct/pppppppp/8/8/8/8/PPPPPPPP/TCFDRFCT'' = Inr standardInitialPosition
   \<and> frenchToStandardFEN ''tcfdrfct/pppppppp/8/8/8/8/PPPPPPPP/TCFDRFCT''
       = ''rnbqkbnr/pppppppp/8/8/8/8/PPPPPPPP/RNBQKBNR''"
proof -
  have t: "map toFrenchChar ''rnbqkbnr/pppppppp/8/8/8/8/PPPPPPPP/RNBQKBNR''
       = ''tcfdrfct/pppppppp/8/8/8/8/PPPPPPPP/TCFDRFCT''"
    by (simp add: toFrenchChar_def convertPieceToFrench_def allPieces_def)
  have d: "\<not> isFrenchFENNotation ''rnbqkbnr/pppppppp/8/8/8/8/PPPPPPPP/RNBQKBNR''"
    "isFrenchFENNotation ''tcfdrfct/pppppppp/8/8/8/8/PPPPPPPP/TCFDRFCT''"
    "isFrenchFEN ''tcfdrfct/pppppppp/8/8/8/8/PPPPPPPP/TCFDRFCT''"
    by (simp_all add: isFrenchFENNotation_def isFrenchFEN_def)
  from french_section_decodes_like_standard
         [of "''rnbqkbnr/pppppppp/8/8/8/8/PPPPPPPP/RNBQKBNR''" standardInitialPosition]
       t d standard_initial_position_decodes
  show ?thesis
    by simp
qed

section \<open>The tokenizer\<close>

lemma splitWS_not_Nil [simp]: "splitWS s \<noteq> []"
  by (induction s rule: splitWS.induct) (auto split: list.splits)

lemma splitWS_letter:
  assumes "\<not> isWhiteSpace c"
  shows "splitWS (c # cs) = (c # hd (splitWS cs)) # tl (splitWS cs)"
  using assms by (cases "splitWS cs") simp_all

lemma collapseWS_no_leading_blank:
  assumes "s = [] \<or> \<not> isWhiteSpace (hd s)"
  shows "dropWhile isWhiteSpace (collapseWS s) = collapseWS s"
  using assms by (cases s) auto

lemma splitWS_collapseWS: "splitWS (collapseWS s) = splitWS s"
proof (induction s rule: collapseWS.induct)
  case 1
  then show ?case by simp
next
  case (2 c cs)
  show ?case
  proof (cases "isWhiteSpace c")
    case True
    have "dropWhile isWhiteSpace cs = [] \<or> \<not> isWhiteSpace (hd (dropWhile isWhiteSpace cs))"
      using hd_dropWhile [of isWhiteSpace cs] by blast
    from collapseWS_no_leading_blank [OF this] True 2(1) show ?thesis
      by (simp add: isWhiteSpace_def)
  next
    case False
    with 2(2) show ?thesis
      by simp
  qed
qed

lemma tokens_drop_leading_blanks:
  "filter (\<lambda>t. t \<noteq> []) (splitWS (dropWhile isWhiteSpace s)) = filter (\<lambda>t. t \<noteq> []) (splitWS s)"
  by (cases s) auto

lemma splitWS_trailing_blanks:
  assumes "list_all isWhiteSpace w"
  shows "hd (splitWS (u @ w)) = hd (splitWS u)
       \<and> filter (\<lambda>t. t \<noteq> []) (tl (splitWS (u @ w))) = filter (\<lambda>t. t \<noteq> []) (tl (splitWS u))"
proof (induction u rule: splitWS.induct)
  case 1
  show ?case
  proof (cases w)
    case Nil
    then show ?thesis by simp
  next
    case (Cons a list)
    with assms have a: "isWhiteSpace a" and d: "dropWhile isWhiteSpace list = []"
      by (simp_all add: list_all_iff)
    from a Cons have "splitWS ([] @ w) = [] # splitWS (dropWhile isWhiteSpace list)"
      by simp
    then have "splitWS ([] @ w) = [[], []]"
      unfolding d by simp
    then show ?thesis
      by simp
  qed
next
  case (2 c cs)
  show ?case
  proof (cases "isWhiteSpace c")
    case True
    show ?thesis
    proof (cases "list_all isWhiteSpace cs")
      case all: True
      with assms have d: "dropWhile isWhiteSpace (cs @ w) = []" "dropWhile isWhiteSpace cs = []"
        by (auto simp: list_all_iff)
      from True have "splitWS ((c # cs) @ w) = [] # splitWS (dropWhile isWhiteSpace (cs @ w))"
        and "splitWS (c # cs) = [] # splitWS (dropWhile isWhiteSpace cs)"
        by simp_all
      then have "splitWS ((c # cs) @ w) = splitWS (c # cs)"
        unfolding d by simp
      then show ?thesis
        by (simp only:)
    next
      case False
      then have d: "dropWhile isWhiteSpace (cs @ w) = dropWhile isWhiteSpace cs @ w"
        by (auto simp: list_all_iff dropWhile_append)
      from 2(1) [OF True]
      have "filter (\<lambda>t. t \<noteq> []) (splitWS (dropWhile isWhiteSpace cs @ w))
              = filter (\<lambda>t. t \<noteq> []) (splitWS (dropWhile isWhiteSpace cs))"
        by (cases "splitWS (dropWhile isWhiteSpace cs @ w)"; cases "splitWS (dropWhile isWhiteSpace cs)")
           auto
      with True d show ?thesis
        by simp
    qed
  next
    case False
    with 2(2) [OF False] show ?thesis
      by (simp add: splitWS_letter del: splitWS.simps)
  qed
qed

lemma tokens_drop_trailing_blanks:
  "filter (\<lambda>t. t \<noteq> []) (splitWS (rev (dropWhile isWhiteSpace (rev s))))
     = filter (\<lambda>t. t \<noteq> []) (splitWS s)"
proof -
  let ?u = "rev (dropWhile isWhiteSpace (rev s))" and ?w = "rev (takeWhile isWhiteSpace (rev s))"
  have s: "s = ?u @ ?w"
    by (metis rev_append rev_rev_ident takeWhile_dropWhile_id)
  have "list_all isWhiteSpace ?w"
    by (auto simp: list_all_iff dest: set_takeWhileD)
  from splitWS_trailing_blanks [OF this, of ?u]
  have "filter (\<lambda>t. t \<noteq> []) (splitWS (?u @ ?w)) = filter (\<lambda>t. t \<noteq> []) (splitWS ?u)"
    by (cases "splitWS (?u @ ?w)"; cases "splitWS ?u") auto
  with s show ?thesis
    by simp
qed

lemma tokens_trim:
  "filter (\<lambda>t. t \<noteq> []) (splitWS (trim s)) = filter (\<lambda>t. t \<noteq> []) (splitWS s)"
  by (simp add: trim_def tokens_drop_trailing_blanks tokens_drop_leading_blanks)

lemma splitWS_tokens_have_no_blank:
  assumes "t \<in> set (splitWS s)"
  shows "list_all (\<lambda>c. \<not> isWhiteSpace c) t"
  using assms
proof (induction s arbitrary: t rule: splitWS.induct)
  case 1
  then show ?case by simp
next
  case (2 c cs)
  show ?case
  proof (cases "isWhiteSpace c")
    case True
    with 2(1) [OF True] 2(3) show ?thesis
      by auto
  next
    case False
    have "t = c # hd (splitWS cs) \<or> t \<in> set (tl (splitWS cs))"
      using 2(3) unfolding splitWS_letter [OF False] by simp
    moreover have "hd (splitWS cs) \<in> set (splitWS cs)"
      by simp
    moreover have "\<And>x. x \<in> set (tl (splitWS cs)) \<Longrightarrow> x \<in> set (splitWS cs)"
      by (rule list.set_sel(2)) simp
    ultimately show ?thesis
      using 2(2) [OF False] False by auto
  qed
qed

lemma trim_without_blank:
  assumes "list_all (\<lambda>c. \<not> isWhiteSpace c) t"
  shows "trim t = t"
proof -
  have "\<And>xs. list_all (\<lambda>c. \<not> isWhiteSpace c) xs \<Longrightarrow> dropWhile isWhiteSpace xs = xs"
    by (case_tac xs) auto
  from this [of t] this [of "rev t"] assms show ?thesis
    by (simp add: trim_def list_all_iff)
qed

lemma stripMoveNumber_subset: "set (stripMoveNumber t) \<subseteq> set t"
proof (cases "startsWithMoveNumber t")
  case True
  have "\<And>xs :: string. set (tl xs) \<subseteq> set xs"
    by (case_tac xs) auto
  then have "set (tl (dropWhile isDigit t)) \<subseteq> set (dropWhile isDigit t)" .
  also have "\<dots> \<subseteq> set t"
    by (auto dest: set_dropWhileD)
  finally show ?thesis
    using True by (simp add: stripMoveNumber_def)
next
  case False
  then show ?thesis
    by (simp add: stripMoveNumber_def)
qed

lemma parseMoves_as_tokens:
  "parseMoves moveSection =
     map (\<lambda>token. if token = ''O-O'' \<or> token = ''O-O-O'' then token else replaceLeadingFrench token)
       (leadingStripped moveSection)"
proof (cases "moveSection = []")
  case True
  then show ?thesis
    by (simp add: parseMoves_def leadingStripped_def)
next
  case False
  let ?tokens = "filter (\<lambda>t. t \<noteq> []) (splitWS moveSection)"
  have words: "filter (\<lambda>move. 0 < length move) (splitWS (trim (collapseWS moveSection))) = ?tokens"
    using tokens_trim [of "collapseWS moveSection"] by (simp add: splitWS_collapseWS)
  have "trim (stripMoveNumber t) = stripMoveNumber t" if "t \<in> set ?tokens" for t
  proof -
    from that splitWS_tokens_have_no_blank [of t moveSection]
    have "list_all (\<lambda>c. \<not> isWhiteSpace c) t"
      by simp
    with stripMoveNumber_subset [of t] have "list_all (\<lambda>c. \<not> isWhiteSpace c) (stripMoveNumber t)"
      by (auto simp: list_all_iff)
    then show ?thesis
      by (rule trim_without_blank)
  qed
  then have eq: "map (\<lambda>move. trim (stripMoveNumber move)) ?tokens = map stripMoveNumber ?tokens"
    by (intro map_cong) simp_all
  have "parseMoves moveSection =
     map (\<lambda>token. if token = ''O-O'' \<or> token = ''O-O-O'' then token else replaceLeadingFrench token)
       (filter (\<lambda>t. t \<noteq> []) (map (\<lambda>move. trim (stripMoveNumber move)) ?tokens))"
    using False words by (simp add: parseMoves_def Let_def)
  then show ?thesis
    unfolding leadingStripped_def by (simp only: eq)
qed

lemma parseMoves_legacy_as_spec:
  "parseMoves_legacy moveSection = tokenize_spec moveSection"
proof (cases "moveSection = []")
  case True
  then show ?thesis
    by (simp add: parseMoves_legacy_def tokenize_spec_def)
next
  case False
  with tokens_trim [of "stripAllMoveNumbers moveSection"] show ?thesis
    by (simp add: parseMoves_legacy_def tokenize_spec_def splitWS_collapseWS)
qed

lemmas tokenizer_defs =
  parseMoves_def parseMoves_legacy_def tokenize_spec_def leadingStripped_def trim_def
  stripMoveNumber_def startsWithMoveNumber_def replaceLeadingFrench_def
  convertPieceToStandard_def isDigit_def isWhiteSpace_def

text \<open>
  Claim C7, as stated: the tokenizer returns the tokens between the blanks, without the
  move numbers and without empty tokens, and changes no token. Refuted on the move
  section of the tests, \<open>1.e4 e5 2.Cf3 Cc6\<close>: \<open>parseMoves\<close> returns \<open>Nf3\<close> and \<open>Nc6\<close> for
  the tokens \<open>Cf3\<close> and \<open>Cc6\<close>.
\<close>

theorem parseMoves_rewrites_french_tokens:
  "tokenize_spec ''1.e4 e5 2.Cf3 Cc6'' = [''e4'', ''e5'', ''Cf3'', ''Cc6'']
   \<and> parseMoves ''1.e4 e5 2.Cf3 Cc6'' = [''e4'', ''e5'', ''Nf3'', ''Nc6'']"
  by (simp add: tokenizer_defs Let_def)

text \<open>
  Claim C7, amended. \<open>parseMoves\<close> returns, in order, one token for each token between
  the blanks of the move section that is not empty once its leading move number is
  removed. A token that is \<open>O-O\<close> or \<open>O-O-O\<close>, or that does not start with one of the
  letters R, D, T, F, C in either case, is returned unchanged, garbage included. A token
  that starts with one of the capitals R, D, T, F, C is returned with that letter
  replaced by its standard equivalent, and nothing after the first character of a token
  is ever changed. The earlier \<open>parseMoves\<close> changes no token at all: it returns the
  tokens of the specification.
\<close>

theorem tokens_pass_through_unless_french:
  "parseMoves_legacy moveSection = tokenize_spec moveSection
   \<and> list_all2
        (\<lambda>token result.
           tl result = tl token
           \<and> (token = ''O-O'' \<or> token = ''O-O-O'' \<or> hd token \<notin> set ''RDTFCrdtfc''
                \<longrightarrow> result = token)
           \<and> (token \<noteq> ''O-O'' \<and> token \<noteq> ''O-O-O'' \<and> hd token \<in> set ''RDTFC''
                \<longrightarrow> hd result = convertPieceToStandard (hd token)))
        (leadingStripped moveSection) (parseMoves moveSection)"
proof
  show "parseMoves_legacy moveSection = tokenize_spec moveSection"
    by (rule parseMoves_legacy_as_spec)
next
  have "token \<noteq> []" if "token \<in> set (leadingStripped moveSection)" for token
    using that by (simp add: leadingStripped_def)
  then show "list_all2
        (\<lambda>token result.
           tl result = tl token
           \<and> (token = ''O-O'' \<or> token = ''O-O-O'' \<or> hd token \<notin> set ''RDTFCrdtfc''
                \<longrightarrow> result = token)
           \<and> (token \<noteq> ''O-O'' \<and> token \<noteq> ''O-O-O'' \<and> hd token \<in> set ''RDTFC''
                \<longrightarrow> hd result = convertPieceToStandard (hd token)))
        (leadingStripped moveSection) (parseMoves moveSection)"
    unfolding parseMoves_as_tokens list_all2_map2
    by (intro list_all2_all_nthI) (auto simp: replaceLeadingFrench_def split: list.splits)
qed

theorem tokens_pass_through_unless_french_witness:
  "leadingStripped ''1.e4 zz 2.Cf3'' = [''e4'', ''zz'', ''Cf3'']
   \<and> tokenize_spec ''1.e4 zz 2.Cf3'' = [''e4'', ''zz'', ''Cf3'']
   \<and> parseMoves_legacy ''1.e4 zz 2.Cf3'' = [''e4'', ''zz'', ''Cf3'']
   \<and> length (parseMoves ''1.e4 zz 2.Cf3'') = 3
   \<and> parseMoves ''1.e4 zz 2.Cf3'' ! 0 = ''e4''
   \<and> parseMoves ''1.e4 zz 2.Cf3'' ! 1 = ''zz''
   \<and> hd (parseMoves ''1.e4 zz 2.Cf3'' ! 2) = CHR ''N''
   \<and> tl (parseMoves ''1.e4 zz 2.Cf3'' ! 2) = ''f3''"
proof -
  have l: "leadingStripped ''1.e4 zz 2.Cf3'' = [''e4'', ''zz'', ''Cf3'']"
    and t: "tokenize_spec ''1.e4 zz 2.Cf3'' = [''e4'', ''zz'', ''Cf3'']"
    by (simp_all add: leadingStripped_def tokenize_spec_def stripMoveNumber_def
          startsWithMoveNumber_def isDigit_def isWhiteSpace_def)
  from tokens_pass_through_unless_french [of "''1.e4 zz 2.Cf3''"] l t show ?thesis
    by (auto simp: list_all2_Cons1 convertPieceToStandard_def)
qed

end
